theory Spec2Isabelle
  imports Complex_Main
begin

section \<open>Errors\<close>

text \<open>
  The exceptions \<^verbatim>\<open>ma_pca\<close> can end with, one constructor per Python exception class
  and raising site. Floating-point values are modelled by real numbers; where numpy
  would go on with \<^verbatim>\<open>inf\<close> or \<^verbatim>\<open>nan\<close> the model says so explicitly
  (an \<open>option\<close>) instead of using HOL's \<open>x / 0 = 0\<close>.
\<close>

datatype error =
    Unpack_ValueError
      \<comment> \<open>line 55: \<^verbatim>\<open>[Nx, Ny, Nz, Nt] = data_nib.shape\<close> with a shape that has not four entries\<close>
  | Reshape_ValueError
      \<comment> \<open>\<^verbatim>\<open>np.reshape\<close>: cannot reshape array of size n into the new shape\<close>
  | Scaler_ValueError
      \<comment> \<open>\<^verbatim>\<open>StandardScaler.fit_transform\<close>: found array with 0 samples (or 0 features)\<close>
  | Dot_ValueError
      \<comment> \<open>\<^verbatim>\<open>np.dot\<close>: shapes not aligned\<close>
  | IndexError
      \<comment> \<open>index out of bounds, or a boolean index of the wrong length\<close>
  | Assign_ValueError
      \<comment> \<open>assignment of n values to m selected positions\<close>
  | NanToInt_ValueError
      \<comment> \<open>\<^verbatim>\<open>int(nan)\<close> or \<^verbatim>\<open>"%d" % nan\<close>\<close>
  | InfToInt_OverflowError
      \<comment> \<open>\<^verbatim>\<open>"%d" % inf\<close>\<close>
  | NegativeDim_ValueError
      \<comment> \<open>\<^verbatim>\<open>np.zeros\<close> with a negative dimension\<close>
  | InvalidEigen_ValueError
      \<comment> \<open>line 153: \<^verbatim>\<open>raise ValueError("Invalid eigen value found for the subsampled data.")\<close>\<close>
  | EmptyMin_ValueError
      \<comment> \<open>\<^verbatim>\<open>np.min\<close> of an empty array\<close>
  | UnboundLocalError
      \<comment> \<open>line 186: \<^verbatim>\<open>criteria_idx\<close> read before any branch assigned it\<close>
  | Collaborator_raised
      \<comment> \<open>an exception raised inside \<^verbatim>\<open>utils\<close> or sklearn\<close>
  | Complex_continuation
      \<comment> \<open>not an exception: the source goes on in complex arithmetic, which this
         real-valued model does not follow\<close>

definition ebind :: "error + 'a \<Rightarrow> ('a \<Rightarrow> error + 'b) \<Rightarrow> error + 'b" where
  "ebind r f = (case r of Inl e \<Rightarrow> Inl e | Inr x \<Rightarrow> f x)"

definition raised :: "'a option \<Rightarrow> error + 'a" where
  "raised r = (case r of None \<Rightarrow> Inl Collaborator_raised | Some x \<Rightarrow> Inr x)"

section \<open>numpy arrays and \<^verbatim>\<open>np.reshape(..., order="F")\<close>\<close>

text \<open>
  An n-dimensional array is its shape and its elements in C order (last index
  fastest), the order in which \<^verbatim>\<open>a.ravel()\<close> and \<^verbatim>\<open>a.tolist()\<close> list them.
  \<^verbatim>\<open>order="F"\<close> reads and writes in Fortran order (first index fastest), so
  \<open>reshape_F\<close> permutes the stored elements.
\<close>

record ndarray =
  shape :: "nat list"
  elems :: "real list"

definition wf_array :: "ndarray \<Rightarrow> bool" where
  "wf_array a = (length (elems a) = prod_list (shape a))"

fun F_index :: "nat list \<Rightarrow> nat list \<Rightarrow> nat" where
  "F_index (n # ns) (i # is) = i + n * F_index ns is"
| "F_index _ _ = 0"

fun F_unravel :: "nat list \<Rightarrow> nat \<Rightarrow> nat list" where
  "F_unravel [] m = []"
| "F_unravel (n # ns) m = (m mod n) # F_unravel ns (m div n)"

definition C_index :: "nat list \<Rightarrow> nat list \<Rightarrow> nat" where
  "C_index s idx = F_index (rev s) (rev idx)"

definition C_unravel :: "nat list \<Rightarrow> nat \<Rightarrow> nat list" where
  "C_unravel s m = rev (F_unravel (rev s) m)"

definition valid_index :: "nat list \<Rightarrow> nat list \<Rightarrow> bool" where
  "valid_index s idx = list_all2 (<) idx s"

definition item :: "ndarray \<Rightarrow> nat list \<Rightarrow> real" where
  "item a idx = elems a ! C_index (shape a) idx"

definition ravel_F :: "ndarray \<Rightarrow> real list" where
  "ravel_F a = map (\<lambda>m. item a (F_unravel (shape a) m)) [0..<prod_list (shape a)]"

definition reshape_F :: "ndarray \<Rightarrow> nat list \<Rightarrow> error + ndarray" where
  "reshape_F a new =
     (if prod_list new \<noteq> prod_list (shape a) then Inl Reshape_ValueError
      else Inr \<lparr>shape = new,
                elems = map (\<lambda>c. ravel_F a ! F_index new (C_unravel new c))
                            [0..<prod_list new]\<rparr>)"

definition vec :: "real list \<Rightarrow> ndarray" where
  "vec xs = \<lparr>shape = [length xs], elems = xs\<rparr>"

subsection \<open>Index arithmetic\<close>

lemma F_index_unravel:
  "m < prod_list s \<Longrightarrow> F_index s (F_unravel s m) = m"
proof (induction s arbitrary: m)
  case Nil
  then show ?case by simp
next
  case (Cons n ns)
  from Cons.prems have "m < n * prod_list ns" by simp
  then have "m div n < prod_list ns"
    by (simp add: less_mult_imp_div_less mult.commute)
  then have "F_index ns (F_unravel ns (m div n)) = m div n"
    by (rule Cons.IH)
  then show ?case by simp
qed

lemma F_unravel_valid:
  "m < prod_list s \<Longrightarrow> valid_index s (F_unravel s m)"
proof (induction s arbitrary: m)
  case Nil
  then show ?case by (simp add: valid_index_def)
next
  case (Cons n ns)
  from Cons.prems have m: "m < n * prod_list ns" by simp
  then have "0 < n" by (cases n) auto
  moreover from m have "m div n < prod_list ns"
    by (simp add: less_mult_imp_div_less mult.commute)
  then have "valid_index ns (F_unravel ns (m div n))"
    by (rule Cons.IH)
  ultimately show ?case by (simp add: valid_index_def)
qed

lemma F_unravel_index:
  "valid_index s idx \<Longrightarrow> F_unravel s (F_index s idx) = idx"
proof (induction s idx rule: F_index.induct)
  case (1 n ns i "is")
  then have "i < n" and "valid_index ns is"
    by (simp_all add: valid_index_def)
  with 1 show ?case by simp
qed (simp_all add: valid_index_def)

lemma F_index_less:
  "valid_index s idx \<Longrightarrow> F_index s idx < prod_list s"
proof (induction s idx rule: F_index.induct)
  case (1 n ns i "is")
  then have i: "i < n" and r: "F_index ns is < prod_list ns"
    by (simp_all add: valid_index_def)
  from r have "Suc (F_index ns is) \<le> prod_list ns" by simp
  then have "n * Suc (F_index ns is) \<le> n * prod_list ns"
    by (rule mult_le_mono2)
  with i show ?case by simp
qed (simp_all add: valid_index_def)

lemma valid_index_rev:
  "valid_index (rev s) (rev idx) = valid_index s idx"
  by (simp add: valid_index_def)

lemma C_index_unravel:
  "m < prod_list s \<Longrightarrow> C_index s (C_unravel s m) = m"
  by (simp add: C_index_def C_unravel_def F_index_unravel)

lemma C_unravel_valid:
  "m < prod_list s \<Longrightarrow> valid_index s (C_unravel s m)"
  using F_unravel_valid [of m "rev s"] valid_index_rev [of s "C_unravel s m"]
  by (simp add: C_unravel_def)

lemma C_unravel_index:
  "valid_index s idx \<Longrightarrow> C_unravel s (C_index s idx) = idx"
  using F_unravel_index [of "rev s" "rev idx"]
  by (simp add: C_index_def C_unravel_def valid_index_rev)

lemma C_index_less:
  "valid_index s idx \<Longrightarrow> C_index s idx < prod_list s"
  using F_index_less [of "rev s" "rev idx"]
  by (simp add: C_index_def valid_index_rev)


section \<open>Matrices and the numpy operations the pipeline uses\<close>

text \<open>
  A two-dimensional array is kept as its list of rows together with both dimensions
  (a matrix with no row still has a column count, as a numpy array of shape
  \<open>(0, T)\<close> has).
\<close>

record matrix =
  nrows :: nat
  ncols :: nat
  rows :: "real list list"

definition wf_matrix :: "matrix \<Rightarrow> bool" where
  "wf_matrix A = (length (rows A) = nrows A \<and> list_all (\<lambda>r. length r = ncols A) (rows A))"

definition as_matrix :: "ndarray \<Rightarrow> matrix" where
  \<comment> \<open>a two-dimensional array read as a matrix\<close>
  "as_matrix a =
     (let r = shape a ! 0; c = shape a ! 1
      in \<lparr>nrows = r, ncols = c,
          rows = map (\<lambda>i. map (\<lambda>j. item a [i, j]) [0..<c]) [0..<r]\<rparr>)"

definition count_selected :: "real list \<Rightarrow> nat" where
  \<comment> \<open>the number of entries of the boolean array \<^verbatim>\<open>maskvec == 1\<close> that are true\<close>
  "count_selected maskvec = length (filter (\<lambda>m. m = 1) maskvec)"

definition select_by_mask :: "real list \<Rightarrow> 'a list \<Rightarrow> error + 'a list" where
  \<comment> \<open>\<^verbatim>\<open>xs[maskvec == 1]\<close>: a boolean index must be as long as the indexed axis\<close>
  "select_by_mask maskvec xs =
     (if length maskvec \<noteq> length xs then Inl IndexError
      else Inr (map snd (filter (\<lambda>(m, x). m = 1) (zip maskvec xs))))"

definition select_rows :: "real list \<Rightarrow> matrix \<Rightarrow> error + matrix" where
  \<comment> \<open>\<^verbatim>\<open>A[maskvec == 1, :]\<close>\<close>
  "select_rows maskvec A =
     ebind (select_by_mask maskvec (rows A))
       (\<lambda>rs. Inr \<lparr>nrows = length rs, ncols = ncols A, rows = rs\<rparr>)"

definition col :: "matrix \<Rightarrow> nat \<Rightarrow> error + real list" where
  \<comment> \<open>\<^verbatim>\<open>A[:, j]\<close> for a non-negative \<open>j\<close>\<close>
  "col A j = (if j < ncols A then Inr (map (\<lambda>r. r ! j) (rows A)) else Inl IndexError)"

definition rev_cols :: "matrix \<Rightarrow> matrix" where
  \<comment> \<open>\<^verbatim>\<open>V[:, ::-1]\<close>\<close>
  "rev_cols V = V\<lparr>rows := map rev (rows V)\<rparr>"

definition transpose_m :: "matrix \<Rightarrow> matrix" where
  \<comment> \<open>\<^verbatim>\<open>A.T\<close>\<close>
  "transpose_m A =
     \<lparr>nrows = ncols A, ncols = nrows A,
      rows = map (\<lambda>j. map (\<lambda>r. r ! j) (rows A)) [0..<ncols A]\<rparr>"

definition of_columns :: "nat \<Rightarrow> real list list \<Rightarrow> matrix" where
  \<comment> \<open>the matrix with \<open>n\<close> rows whose columns are \<open>cs\<close>\<close>
  "of_columns n cs =
     \<lparr>nrows = n, ncols = length cs, rows = map (\<lambda>i. map (\<lambda>c. c ! i) cs) [0..<n]\<rparr>"

definition np_dot :: "matrix \<Rightarrow> matrix \<Rightarrow> error + matrix" where
  "np_dot A B =
     (if ncols A \<noteq> nrows B then Inl Dot_ValueError
      else Inr \<lparr>nrows = nrows A, ncols = ncols B,
                rows = map (\<lambda>r. map (\<lambda>j. sum_list (map2 (*) r (map (\<lambda>b. b ! j) (rows B))))
                                     [0..<ncols B])
                           (rows A)\<rparr>)"

definition np_diag :: "real list \<Rightarrow> matrix" where
  "np_diag d =
     \<lparr>nrows = length d, ncols = length d,
      rows = map (\<lambda>i. map (\<lambda>j. if i = j then d ! i else 0) [0..<length d]) [0..<length d]\<rparr>"

fun scatter :: "real list \<Rightarrow> real list \<Rightarrow> real list" where
  "scatter [] vs = []"
| "scatter (m # ms) [] = 0 # scatter ms []"
| "scatter (m # ms) (v # vs) =
     (if m = 1 then v # scatter ms vs else 0 # scatter ms (v # vs))"

definition mask_assign :: "real list \<Rightarrow> real list \<Rightarrow> error + real list" where
  \<comment> \<open>\<^verbatim>\<open>x = np.zeros(len(maskvec)); x[maskvec == 1] = vals\<close>: as many values as
     selected positions, or one value for all of them\<close>
  "mask_assign maskvec vals =
     (if length vals = count_selected maskvec then Inr (scatter maskvec vals)
      else if length vals = 1
        then Inr (scatter maskvec (replicate (count_selected maskvec) (hd vals)))
      else Inl Assign_ValueError)"

definition np_round :: "real \<Rightarrow> int" where
  \<comment> \<open>\<^verbatim>\<open>np.round\<close> rounds halves to the even neighbour\<close>
  "np_round x =
     (let f = \<lfloor>x\<rfloor>; d = x - of_int f
      in if d < 1 / 2 then f else if 1 / 2 < d then f + 1
         else if even f then f else f + 1)"

definition np_median :: "real list \<Rightarrow> real" where
  \<comment> \<open>for a non-empty list; the empty case (\<^verbatim>\<open>nan\<close>) is handled where it is called\<close>
  "np_median xs =
     (let s = sort xs; n = length xs
      in if odd n then s ! (n div 2) else (s ! (n div 2 - 1) + s ! (n div 2)) / 2)"

definition np_unique :: "nat list \<Rightarrow> nat list" where
  "np_unique xs = sort (remdups xs)"

definition eps :: real where
  \<comment> \<open>\<^verbatim>\<open>np.finfo(float).eps\<close>\<close>
  "eps = 1 / 2 ^ 52"

fun collect :: "(nat \<Rightarrow> error + 'a) \<Rightarrow> nat list \<Rightarrow> error + 'a list" where
  \<comment> \<open>a \<^verbatim>\<open>for\<close> loop that builds one value per index and stops at the first exception\<close>
  "collect f [] = Inr []"
| "collect f (i # is) =
     (case f i of
        Inl e \<Rightarrow> Inl e
      | Inr x \<Rightarrow> (case collect f is of Inl e \<Rightarrow> Inl e | Inr xs \<Rightarrow> Inr (x # xs)))"


section \<open>Collaborators\<close>

text \<open>
  \<^verbatim>\<open>ma_pca\<close> calls five functions of \<^verbatim>\<open>utils\<close> (a module of this repository that is
  not among its source files) and two classes of sklearn. Their numerics are
  parameters of the model: one record field per callee, \<open>None\<close> when the callee
  raises. What the pipeline relies on beyond their results is modelled here:
  \<^item> \<^verbatim>\<open>StandardScaler.fit_transform\<close> validates its input first and raises
    \<^verbatim>\<open>ValueError\<close> for an array with no row or no column;
  \<^item> \<^verbatim>\<open>PCA(..., copy=False).fit(data)\<close> may overwrite the array it is given, so the
    fit also returns what the array holds afterwards.

  One floating-point operation is a parameter as well. Line 120 takes the floor of
  \<^verbatim>\<open>np.power(x, 1 / dim_n)\<close>, and the root computed on doubles is not the real root:
  \<^verbatim>\<open>125.0 ** (1 / 3)\<close> is \<^verbatim>\<open>4.999999999999999\<close>, whose floor is 4. The field
  \<open>float_root\<close> stands for the double that numpy computes for the base \<open>x\<close> and the
  exponent \<^verbatim>\<open>1 / n\<close>; \<open>None\<close> is \<^verbatim>\<open>nan\<close>, the answer for a negative base.
\<close>

record pca =
  components :: matrix
  explained_variance :: "real list"
  explained_variance_ratio :: "real list"

record collab =
  icatb_svd :: "matrix \<Rightarrow> nat \<Rightarrow> (matrix \<times> real list) option"
  kurtn :: "matrix \<Rightarrow> real list option"
  est_indp_sp :: "ndarray \<Rightarrow> int option"
  subsampling :: "ndarray \<Rightarrow> int \<Rightarrow> ndarray option"
  eigensp_adj :: "real list \<Rightarrow> real \<Rightarrow> nat \<Rightarrow> complex list option"
  standard_scale :: "matrix \<Rightarrow> matrix option"
  pca_fit :: "nat \<Rightarrow> matrix \<Rightarrow> (pca \<times> matrix) option"
  float_root :: "real \<Rightarrow> nat \<Rightarrow> real option"

definition scaler_fit_transform :: "collab \<Rightarrow> matrix \<Rightarrow> error + matrix" where
  "scaler_fit_transform C X =
     (if nrows X = 0 \<or> ncols X = 0 then Inl Scaler_ValueError
      else raised (standard_scale C X))"

section \<open>The pipeline, stage by stage\<close>

subsection \<open>Masking and flattening (lines 53 to 62)\<close>

record masked =
  vol_shape :: "nat list"
  n_t :: nat
  maskvec :: "real list"
  data :: matrix

definition masking :: "collab \<Rightarrow> ndarray \<Rightarrow> ndarray \<Rightarrow> error + masked" where
  "masking C data_nib mask_nib =
     (case shape data_nib of
        [Nx, Ny, Nz, Nt] \<Rightarrow>
          ebind (reshape_F data_nib [Nx * Ny * Nz, Nt]) (\<lambda>data_nib_V.
          ebind (reshape_F mask_nib [Nx * Ny * Nz]) (\<lambda>mv.
          ebind (select_rows (elems mv) (as_matrix data_nib_V)) (\<lambda>data_non_normalized.
          ebind (scaler_fit_transform C data_non_normalized) (\<lambda>data_sc.
            Inr \<lparr>vol_shape = [Nx, Ny, Nz], n_t = Nt, maskvec = elems mv,
                 data = data_non_normalized\<rparr>))))
      | _ \<Rightarrow> Inl Unpack_ValueError)"

subsection \<open>Decomposition and reordering (lines 65 to 70)\<close>

definition decompose :: "collab \<Rightarrow> matrix \<Rightarrow> nat \<Rightarrow> error + matrix \<times> real list" where
  \<comment> \<open>\<^verbatim>\<open>V, EigenValues = utils._icatb_svd(X, Nt); EigenValues = EigenValues[::-1]\<close>\<close>
  "decompose C X Nt =
     ebind (raised (icatb_svd C X Nt)) (\<lambda>(V, EigenValues). Inr (V, rev EigenValues))"

subsection \<open>Gaussian components (lines 76 to 99)\<close>

definition idx_gauss :: "real list \<Rightarrow> real list \<Rightarrow> nat list" where
  "idx_gauss kurt EigenValues =
     (let mean = sum_list EigenValues / real (length EigenValues);
          kurtv1 = map2 (\<lambda>k e. if mean < e then 1000 else k) kurt EigenValues
      in filter (\<lambda>i. kurtv1 ! i < 3 / 10 \<and> 0 < kurtv1 ! i \<and> eps < EigenValues ! i)
           [0..<length EigenValues])"

definition probe_indices :: "real list \<Rightarrow> real list \<Rightarrow> error + nat list" where
  "probe_indices kurt EigenValues =
     (if length kurt \<noteq> length EigenValues then Inl IndexError
      else
        let idx = idx_gauss kurt EigenValues;
            dfs = length (filter (\<lambda>e. eps < e) EigenValues);
            minTp = 12
        in Inr (np_unique
             (if minTp \<le> length idx then
                let middle = nat (np_round (real (length idx) / 2))
                in take 4 idx @ take 4 (drop (middle - 1) idx) @ drop (length idx - 4) idx
              else
                let minTp = min minTp dfs
                in [dfs - minTp..<dfs])))"

subsection \<open>Subsampling depth (lines 103 to 122)\<close>

definition probe_depth ::
  "collab \<Rightarrow> nat list \<Rightarrow> real list \<Rightarrow> matrix \<Rightarrow> nat \<Rightarrow> error + real" where
  \<comment> \<open>lines 107 to 110 for the component in column \<open>j\<close> of \<^verbatim>\<open>dataN\<close>\<close>
  "probe_depth C vshape mvec dataN j =
     ebind (col dataN j) (\<lambda>c.
     ebind (mask_assign mvec c) (\<lambda>x_single.
     ebind (reshape_F (vec x_single) vshape) (\<lambda>x_vol.
     ebind (raised (est_indp_sp C x_vol)) (\<lambda>lag. Inr (real_of_int lag + 1)))))"

definition consensus :: "real list \<Rightarrow> bool" where
  \<comment> \<open>lines 113 and 114\<close>
  "consensus tmp_sub_sp =
     (let tmp_sub_median = real_of_int (np_round (np_median tmp_sub_sp))
      in 6 < length (filter (\<lambda>d. d = tmp_sub_median) tmp_sub_sp))"

function depth_loop ::
  "(nat \<Rightarrow> error + real) \<Rightarrow> nat \<Rightarrow> nat \<Rightarrow> real list \<Rightarrow> error + real list" where
  "depth_loop probe sub_depth i sub_iid_sp =
     (if i < sub_depth then
        (case probe i of
           Inl e \<Rightarrow> Inl e
         | Inr d \<Rightarrow>
             let sub_iid_sp = sub_iid_sp[i := d]
             in if 6 < i \<and> consensus (take i sub_iid_sp) then Inr (take i sub_iid_sp)
                else depth_loop probe sub_depth (i + 1) sub_iid_sp)
      else Inr sub_iid_sp)"
  by pat_completeness auto
termination
  by (relation "measure (\<lambda>(probe, sub_depth, i, sub_iid_sp). sub_depth - i)") auto

definition subsampling_depth ::
  "collab \<Rightarrow> real list \<Rightarrow> real \<Rightarrow> nat \<Rightarrow> nat \<Rightarrow> error + int" where
  \<comment> \<open>lines 119 to 121; the median of no value is \<^verbatim>\<open>nan\<close>, which \<^verbatim>\<open>int\<close> refuses, and
     no comparison with \<^verbatim>\<open>nan\<close> holds\<close>
  "subsampling_depth C sub_iid_sp mask_sum Nt dim_n =
     (if sub_iid_sp = [] then Inl NanToInt_ValueError
      else
        let sub_iid_sp_median = np_round (np_median sub_iid_sp)
        in case float_root C (mask_sum / real Nt) dim_n of
             None \<Rightarrow> Inr sub_iid_sp_median
           | Some r \<Rightarrow> if \<lfloor>r\<rfloor> < sub_iid_sp_median then Inr \<lfloor>r\<rfloor> else Inr sub_iid_sp_median)"

definition effective_N :: "real \<Rightarrow> int \<Rightarrow> nat \<Rightarrow> real option" where
  \<comment> \<open>line 122; a zero depth divides by zero, which numpy answers with \<^verbatim>\<open>inf\<close> or
     \<^verbatim>\<open>nan\<close> (\<open>None\<close>)\<close>
  "effective_N mask_sum sub_iid_sp_median dim_n =
     (if sub_iid_sp_median ^ dim_n = 0 then None
      else Some (real_of_int (np_round (mask_sum / real_of_int (sub_iid_sp_median ^ dim_n)))))"

definition log_N :: "real \<Rightarrow> real option \<Rightarrow> error + real" where
  \<comment> \<open>line 146: \<^verbatim>\<open>"%d" % N\<close> raises for \<^verbatim>\<open>inf\<close> and for \<^verbatim>\<open>nan\<close>\<close>
  "log_N mask_sum N =
     (case N of
        Some n \<Rightarrow> Inr n
      | None \<Rightarrow> if mask_sum = 0 then Inl NanToInt_ValueError else Inl InfToInt_OverflowError)"


subsection \<open>Spatial resampling (lines 124 to 144)\<close>

definition py_int :: "real \<Rightarrow> int" where
  \<comment> \<open>\<^verbatim>\<open>int(x)\<close> truncates towards zero\<close>
  "py_int x = (if 0 \<le> x then \<lfloor>x\<rfloor> else \<lceil>x\<rceil>)"

definition resample_column ::
  "collab \<Rightarrow> masked \<Rightarrow> int \<Rightarrow> real list \<Rightarrow> nat \<Rightarrow> nat \<Rightarrow> error + real list" where
  \<comment> \<open>lines 130 to 135: column \<open>i\<close> of \<^verbatim>\<open>dat\<close>, which has \<open>n_s\<close> rows\<close>
  "resample_column C M depth mask_s_1d n_s i =
     ebind (col (data M) i) (\<lambda>c.
     ebind (mask_assign (maskvec M) c) (\<lambda>x_single.
     ebind (reshape_F (vec x_single) (vol_shape M)) (\<lambda>x_vol.
     ebind (raised (subsampling C x_vol depth)) (\<lambda>dat0.
     ebind (reshape_F dat0 [prod_list (shape dat0)]) (\<lambda>dat0_1d.
     ebind (select_by_mask mask_s_1d (elems dat0_1d)) (\<lambda>sel.
       if length sel = n_s then Inr sel
       else if length sel = 1 then Inr (replicate n_s (hd sel))
       else Inl Assign_ValueError))))))"

definition resample :: "collab \<Rightarrow> masked \<Rightarrow> ndarray \<Rightarrow> int \<Rightarrow> error + matrix" where
  \<comment> \<open>lines 125 to 135\<close>
  "resample C M mask_ND depth =
     ebind (raised (subsampling C mask_ND depth)) (\<lambda>mask_s.
     ebind (reshape_F mask_s [prod_list (shape mask_s)]) (\<lambda>mask_s_1d.
       let n_s = py_int (sum_list (elems mask_s_1d))
       in if n_s < 0 then Inl NegativeDim_ValueError
          else
            ebind (collect (resample_column C M depth (elems mask_s_1d) (nat n_s))
                     [0..<n_t M])
              (\<lambda>cs. Inr (of_columns (nat n_s) cs))))"

definition resampled_spectrum ::
  "collab \<Rightarrow> masked \<Rightarrow> ndarray \<Rightarrow> int \<Rightarrow> real list \<Rightarrow> error + real list" where
  \<comment> \<open>lines 124 to 144: the spectrum that goes on to the adjustment\<close>
  "resampled_spectrum C M mask_ND sub_iid_sp_median EigenValues =
     (if sub_iid_sp_median \<noteq> 1 then
        ebind (resample C M mask_ND sub_iid_sp_median) (\<lambda>dat.
        ebind (scaler_fit_transform C dat) (\<lambda>dat.
        ebind (decompose C dat (n_t M)) (\<lambda>(V, EigenValues). Inr EigenValues)))
      else Inr EigenValues)"

subsection \<open>Eigenspectrum adjustment and its checks (lines 150 to 160)\<close>

definition imag_check :: "complex list \<Rightarrow> error + complex list" where
  \<comment> \<open>lines 152 and 153: \<^verbatim>\<open>if np.sum(np.imag(EigenValues)): raise ValueError(...)\<close>\<close>
  "imag_check es =
     (if sum_list (map Im es) \<noteq> 0 then Inl InvalidEigen_ValueError else Inr es)"

definition real_spectrum :: "complex list \<Rightarrow> error + real list" where
  \<comment> \<open>the model follows the source on values without imaginary part only\<close>
  "real_spectrum es =
     (if list_all (\<lambda>z. Im z = 0) es then Inr (map Re es) else Inl Complex_continuation)"

definition clamp_eigen :: "real list \<Rightarrow> error + real list" where
  \<comment> \<open>lines 157 to 160\<close>
  "clamp_eigen EigenValues =
     (if filter (\<lambda>x. x \<le> eps) EigenValues \<noteq> [] then
        (let good = filter (\<lambda>x. eps \<le> x) EigenValues
         in if good = [] then Inl EmptyMin_ValueError
            else Inr (map (\<lambda>x. if x \<le> eps then Min (set good) else x) EigenValues))
      else Inr EigenValues)"

definition corrected_spectrum ::
  "collab \<Rightarrow> real list \<Rightarrow> real \<Rightarrow> error + real list" where
  "corrected_spectrum C EigenValues N =
     ebind (raised (eigensp_adj C EigenValues N (length EigenValues))) (\<lambda>es.
     ebind (imag_check es) (\<lambda>es.
     ebind (real_spectrum es) clamp_eigen))"

subsection \<open>Order selection (lines 162 to 191)\<close>

text \<open>
  An entry of a criterion curve is \<open>None\<close> where numpy computes a value that is
  not finite: the mean of an empty slice, the logarithm of a number that is not
  positive. After the clamp every eigenvalue is at least \<open>eps\<close>, so the slices
  \<^verbatim>\<open>EigenValues[k:]\<close> that are not empty hold positive numbers only.
\<close>

definition LH :: "real list \<Rightarrow> nat \<Rightarrow> nat \<Rightarrow> real option" where
  "LH EigenValues p k =
     (let tail = drop k EigenValues
      in if tail = [] \<or> \<not> list_all (\<lambda>x. 0 < x) tail then None
         else Some (ln (prod_list (map (\<lambda>x. x powr (1 / real (p - k))) tail)
                        / (sum_list tail / real (length tail)))))"

definition mlh :: "real list \<Rightarrow> real \<Rightarrow> nat \<Rightarrow> nat \<Rightarrow> real option" where
  "mlh EigenValues N p k =
     map_option (\<lambda>lh. 0.5 * N * real (p - k) * lh) (LH EigenValues p k)"

definition df :: "nat \<Rightarrow> nat \<Rightarrow> real" where
  "df p k = 1 + 0.5 * real k * (2 * real p - real k + 1)"

definition np_log :: "real \<Rightarrow> real option" where
  "np_log x = (if 0 < x then Some (ln x) else None)"

definition aic :: "real list \<Rightarrow> real \<Rightarrow> nat \<Rightarrow> real option list" where
  "aic EigenValues N p =
     map (\<lambda>k. map_option (\<lambda>m. (- 2 * m) + (2 * df p k)) (mlh EigenValues N p k)) [1..<p]"

definition kic :: "real list \<Rightarrow> real \<Rightarrow> nat \<Rightarrow> real option list" where
  "kic EigenValues N p =
     map (\<lambda>k. map_option (\<lambda>m. (- 2 * m) + (3 * df p k)) (mlh EigenValues N p k)) [1..<p]"

definition mdl :: "real list \<Rightarrow> real \<Rightarrow> nat \<Rightarrow> real option list" where
  "mdl EigenValues N p =
     map (\<lambda>k. case (mlh EigenValues N p k, np_log N) of
                 (Some m, Some l) \<Rightarrow> Some (- m + (0.5 * df p k * l))
               | _ \<Rightarrow> None) [1..<p]"

definition criteria_idx :: "string \<Rightarrow> nat option" where
  \<comment> \<open>lines 179 to 184; \<open>None\<close>: no branch assigns the variable\<close>
  "criteria_idx criteria =
     (if criteria = ''aic'' then Some 0
      else if criteria = ''kic'' then Some 1
      else if criteria = ''mdl'' then Some 2
      else None)"

definition np_diff :: "real option list \<Rightarrow> real option list" where
  "np_diff xs =
     map2 (\<lambda>a b. case (a, b) of (Some x, Some y) \<Rightarrow> Some (y - x) | _ \<Rightarrow> None) xs (tl xs)"

definition positive :: "real option \<Rightarrow> bool" where
  "positive d = (case d of Some x \<Rightarrow> 0 < x | None \<Rightarrow> False)"

definition select_order :: "real option list \<Rightarrow> nat" where
  \<comment> \<open>lines 186 to 191\<close>
  "select_order curve =
     (let dlap = np_diff curve;
          a = map (\<lambda>i. i + 1) (filter (\<lambda>i. positive (dlap ! i)) [0..<length dlap])
      in case a of [] \<Rightarrow> length curve | k # _ \<Rightarrow> k)"

definition estimate_order :: "real list \<Rightarrow> real \<Rightarrow> nat \<Rightarrow> string \<Rightarrow> error + nat" where
  "estimate_order EigenValues N p criteria =
     (let itc = [aic EigenValues N p, kic EigenValues N p, mdl EigenValues N p]
      in case criteria_idx criteria of
           None \<Rightarrow> Inl UnboundLocalError
         | Some c \<Rightarrow> Inr (select_order (itc ! c)))"

subsection \<open>Final decomposition (lines 196 to 203)\<close>

text \<open>
  \<open>u\<close> is \<open>None\<close> when an explained variance is zero: \<^verbatim>\<open>1.0 / s\<close> is then
  \<^verbatim>\<open>inf\<close> and the column of \<open>u\<close> holds no finite number.
\<close>

type_synonym decomposition = "matrix option \<times> real list \<times> real list \<times> matrix"

definition final_pca :: "collab \<Rightarrow> matrix \<Rightarrow> nat \<Rightarrow> error + decomposition" where
  "final_pca C X comp_est =
     ebind (raised (pca_fit C comp_est X)) (\<lambda>(ppca, X).
       let v = transpose_m (components ppca);
           s = explained_variance ppca
       in ebind (np_dot X v) (\<lambda>xv.
          ebind (np_dot xv (np_diag (map (\<lambda>x. 1 / x) s))) (\<lambda>u.
            Inr (if 0 \<in> set s then None else Some u, s,
                 explained_variance_ratio ppca, v))))"

subsection \<open>The whole of \<^verbatim>\<open>ma_pca\<close>\<close>

definition estimate_depth :: "collab \<Rightarrow> masked \<Rightarrow> matrix \<Rightarrow> nat list \<Rightarrow> error + int" where
  \<comment> \<open>lines 104 to 121\<close>
  "estimate_depth C M dataN idx =
     ebind (depth_loop (\<lambda>i. probe_depth C (vol_shape M) (maskvec M) dataN (idx ! i))
              (length idx) 0 (replicate (length idx) 0)) (\<lambda>sub_iid_sp.
       subsampling_depth C sub_iid_sp (sum_list (maskvec M)) (n_t M) (length (vol_shape M)))"

definition ma_pca :: "collab \<Rightarrow> ndarray \<Rightarrow> ndarray \<Rightarrow> string \<Rightarrow> error + decomposition" where
  "ma_pca C data_nib mask_nib criteria =
     ebind (masking C data_nib mask_nib) (\<lambda>M.
     ebind (decompose C (data M) (n_t M)) (\<lambda>(V, EigenValues).
     ebind (np_dot (data M) (rev_cols V)) (\<lambda>dataN.
     ebind (raised (kurtn C dataN)) (\<lambda>kurtv1.
     ebind (probe_indices kurtv1 EigenValues) (\<lambda>idx.
     ebind (reshape_F (vec (maskvec M)) (vol_shape M)) (\<lambda>mask_ND.
     ebind (estimate_depth C M dataN idx) (\<lambda>sub_iid_sp_median.
       let N = effective_N (sum_list (maskvec M)) sub_iid_sp_median (length (vol_shape M))
       in
     ebind (resampled_spectrum C M mask_ND sub_iid_sp_median EigenValues) (\<lambda>EigenValues.
     ebind (log_N (sum_list (maskvec M)) N) (\<lambda>N.
     ebind (corrected_spectrum C EigenValues N) (\<lambda>EigenValues.
     ebind (estimate_order EigenValues N (n_t M) criteria) (\<lambda>comp_est.
       final_pca C (data M) comp_est)))))))))))"

section \<open>Properties the claims speak of, and a small instance\<close>

definition non_increasing :: "real list \<Rightarrow> bool" where
  "non_increasing xs = sorted (rev xs)"

text \<open>
  \<open>voxel_pos\<close> is the place of voxel \<open>(i, j, k)\<close> in a column-major listing of a volume
  whose first two extents are \<open>Nx\<close> and \<open>Ny\<close>: the first index runs fastest, then the
  second, then the third. \<open>rank_in_mask ms p\<close> counts the selected positions before
  \<open>p\<close>: it is the row that the boolean selection \<^verbatim>\<open>A[maskvec == 1, :]\<close> gives to
  position \<open>p\<close>.
\<close>

definition voxel_pos :: "nat \<Rightarrow> nat \<Rightarrow> nat \<Rightarrow> nat \<Rightarrow> nat \<Rightarrow> nat" where
  "voxel_pos Nx Ny i j k = i + Nx * (j + Ny * k)"

definition rank_in_mask :: "real list \<Rightarrow> nat \<Rightarrow> nat" where
  "rank_in_mask ms p = count_selected (take p ms)"

text \<open>
  Stand-ins for the collaborators, used to run the pipeline on small inputs.
  \<open>grid_subsample\<close> is modelled from the spec: \<^verbatim>\<open>utils._subsampling\<close> is not among
  the source files, and the spec describes it as a regular-grid decimation at the
  given integer depth along all spatial axes, that is \<^verbatim>\<open>a[::d, ::d, ::d]\<close>.
\<close>

definition identity :: "nat \<Rightarrow> matrix" where
  "identity n = np_diag (replicate n 1)"

definition grid_subsample :: "ndarray \<Rightarrow> int \<Rightarrow> ndarray option" where
  "grid_subsample a d =
     (if d \<le> 0 then None
      else
        let s = map (\<lambda>n. (n + nat d - 1) div nat d) (shape a)
        in Some \<lparr>shape = s,
                 elems = map (\<lambda>c. item a (map (\<lambda>i. i * nat d) (C_unravel s c)))
                             [0..<prod_list s]\<rparr>)"

definition cube_roots :: "((real \<times> nat) \<times> real) list" where
  \<comment> \<open>the doubles that \<^verbatim>\<open>x ** (1 / 3)\<close> evaluates to, for the bases \<open>x\<close> the examples use\<close>
  "cube_roots =
     [((0, 3), 0), ((1 / 2, 3), 7937005259840998 / 10 ^ 16), ((1, 3), 1), ((8, 3), 2),
      ((125, 3), 4999999999999999 / 10 ^ 15)]"

definition C_test :: collab where
  "C_test =
     \<lparr>icatb_svd = (\<lambda>X Nt. Some (identity Nt, map real [1..<Nt + 1])),
      kurtn = (\<lambda>X. Some (replicate (ncols X) (1 / 10))),
      est_indp_sp = (\<lambda>v. Some 0),
      subsampling = grid_subsample,
      eigensp_adj = (\<lambda>ev N n. Some (map complex_of_real ev)),
      standard_scale = (\<lambda>X. Some X),
      pca_fit = (\<lambda>n X.
        Some (\<lparr>components = \<lparr>nrows = n, ncols = ncols X,
                                rows = take n (rows (identity (ncols X)))\<rparr>,
               explained_variance = replicate n 2,
               explained_variance_ratio = replicate n (1 / 2)\<rparr>, X)),
      float_root = (\<lambda>x n. if x < 0 then None else map_of cube_roots (x, n))\<rparr>"

definition data_1212 :: ndarray where
  \<comment> \<open>two voxels along the second axis, two time points\<close>
  "data_1212 = \<lparr>shape = [1, 2, 1, 2], elems = [1, 2, 3, 4]\<rparr>"

definition mask_121 :: ndarray where
  \<comment> \<open>selects the voxel \<open>(0, 1, 0)\<close>\<close>
  "mask_121 = \<lparr>shape = [1, 2, 1], elems = [0, 1]\<rparr>"

definition C_desc :: collab where
  \<comment> \<open>a decomposition that lists its three eigenvalues largest first\<close>
  "C_desc = C_test\<lparr>icatb_svd := (\<lambda>X Nt. Some (identity Nt, [3, 2, 1]))\<rparr>"

definition X_13 :: matrix where
  "X_13 = \<lparr>nrows = 1, ncols = 3, rows = [[1, 2, 3]]\<rparr>"

definition M_211 :: masked where
  \<comment> \<open>two voxels along the first axis, both selected, two time points\<close>
  "M_211 = \<lparr>vol_shape = [2, 1, 1], n_t = 2, maskvec = [1, 1],
            data = \<lparr>nrows = 2, ncols = 2, rows = [[1, 2], [3, 4]]\<rparr>\<rparr>"

definition mask_211 :: ndarray where
  "mask_211 = \<lparr>shape = [2, 1, 1], elems = [1, 1]\<rparr>"

text \<open>
  A volume series of shape \<open>(3, 3, 1, 2)\<close> holding 1 to 18 in row-major order, a mask
  that is not symmetric, so that its column-major and row-major listings differ, and
  the result of the masking stage on them. \<open>C_probe\<close> answers with the value found at
  voxel \<open>(2, 0, 0)\<close> of the volume it is given.
\<close>

definition data_3312 :: ndarray where
  "data_3312 = \<lparr>shape = [3, 3, 1, 2], elems = map real [1..<19]\<rparr>"

definition mask_331 :: ndarray where
  "mask_331 = \<lparr>shape = [3, 3, 1], elems = [1, 1, 1, 0, 1, 0, 1, 0, 0]\<rparr>"

definition C_probe :: collab where
  "C_probe = C_test\<lparr>est_indp_sp := (\<lambda>v. Some \<lfloor>item v [2, 0, 0]\<rfloor>)\<rparr>"

definition M_331 :: masked where
  "M_331 = \<lparr>vol_shape = [3, 3, 1], n_t = 2, maskvec = [1, 0, 1, 1, 1, 0, 1, 0, 0],
            data = \<lparr>nrows = 5, ncols = 2,
                    rows = [[1, 2], [13, 14], [3, 4], [9, 10], [5, 6]]\<rparr>\<rparr>"

section \<open>Facts about reshaping, selecting and scattering\<close>

lemma ravel_F_nth:
  "m < prod_list (shape a) \<Longrightarrow> ravel_F a ! m = item a (F_unravel (shape a) m)"
  by (simp add: ravel_F_def)

lemma length_ravel_F: "length (ravel_F a) = prod_list (shape a)"
  by (simp add: ravel_F_def)

lemma ravel_F_vec: "ravel_F (vec xs) = xs"
proof (rule nth_equalityI)
  show "length (ravel_F (vec xs)) = length xs"
    by (simp add: ravel_F_def vec_def)
next
  fix m assume "m < length (ravel_F (vec xs))"
  then have m: "m < length xs" by (simp add: ravel_F_def vec_def)
  then show "ravel_F (vec xs) ! m = xs ! m"
    by (simp add: ravel_F_def vec_def item_def C_index_def)
qed

lemma item_reshape_F:
  assumes "reshape_F a new = Inr b" and "valid_index new idx"
  shows "item b idx = ravel_F a ! F_index new idx"
proof -
  from assms(1) have b: "b = \<lparr>shape = new,
      elems = map (\<lambda>c. ravel_F a ! F_index new (C_unravel new c)) [0..<prod_list new]\<rparr>"
    by (simp add: reshape_F_def split: if_splits)
  from assms(2) have "C_index new idx < prod_list new" by (rule C_index_less)
  then have "item b idx = ravel_F a ! F_index new (C_unravel new (C_index new idx))"
    by (simp add: b item_def)
  with assms(2) show ?thesis by (simp add: C_unravel_index)
qed

lemma shape_reshape_F: "reshape_F a new = Inr b \<Longrightarrow> shape b = new"
  by (auto simp: reshape_F_def split: if_splits)

lemma ravel_F_reshape_F:
  assumes "reshape_F a new = Inr b"
  shows "ravel_F b = ravel_F a"
proof (rule nth_equalityI)
  from assms have sz: "prod_list new = prod_list (shape a)" and sh: "shape b = new"
    by (auto simp: reshape_F_def split: if_splits)
  show "length (ravel_F b) = length (ravel_F a)"
    by (simp add: length_ravel_F sh sz)
  fix m assume "m < length (ravel_F b)"
  then have m: "m < prod_list new" by (simp add: length_ravel_F sh)
  then have "ravel_F b ! m = item b (F_unravel new m)"
    by (simp add: ravel_F_nth sh)
  also have "\<dots> = ravel_F a ! F_index new (F_unravel new m)"
    using assms m by (simp add: item_reshape_F F_unravel_valid)
  also have "\<dots> = ravel_F a ! m"
    using m by (simp add: F_index_unravel)
  finally show "ravel_F b ! m = ravel_F a ! m" .
qed

lemma elems_reshape_flat:
  assumes "reshape_F a [n] = Inr b"
  shows "elems b = ravel_F a"
proof -
  from assms have n: "n = prod_list (shape a)"
    and b: "elems b = map (\<lambda>c. ravel_F a ! F_index [n] (C_unravel [n] c)) [0..<prod_list [n]]"
    by (auto simp: reshape_F_def split: if_splits)
  show ?thesis
  proof (rule nth_equalityI)
    show "length (elems b) = length (ravel_F a)"
      by (simp add: b length_ravel_F n)
    fix m assume "m < length (elems b)"
    then have "m < n" by (simp add: b)
    then show "elems b ! m = ravel_F a ! m"
      by (simp add: b C_unravel_def)
  qed
qed

lemma reshape_F_roundtrip:
  assumes "length x = Nx * Ny * Nz"
  shows "\<exists>v. reshape_F (vec x) [Nx, Ny, Nz] = Inr v
            \<and> reshape_F v [Nx * Ny * Nz] = Inr (vec x)"
proof -
  let ?s = "[Nx, Ny, Nz]"
  from assms have sz: "prod_list ?s = prod_list (shape (vec x))"
    by (simp add: vec_def)
  then obtain v where v: "reshape_F (vec x) ?s = Inr v"
    by (simp add: reshape_F_def)
  then have sh: "shape v = ?s" by (rule shape_reshape_F)
  then obtain w where w: "reshape_F v [Nx * Ny * Nz] = Inr w"
    by (simp add: reshape_F_def)
  then have "elems w = ravel_F v" by (rule elems_reshape_flat)
  also have "\<dots> = ravel_F (vec x)" using v by (rule ravel_F_reshape_F)
  also have "\<dots> = x" by (rule ravel_F_vec)
  finally have "elems w = x" .
  moreover from w have "shape w = [Nx * Ny * Nz]" by (rule shape_reshape_F)
  ultimately have "w = vec x" using assms by (simp add: vec_def)
  with v w show ?thesis by simp
qed


lemma scatter_select:
  "length ms = length xs \<Longrightarrow>
   scatter ms (map snd (filter (\<lambda>(m, x). m = 1) (zip ms xs)))
     = map2 (\<lambda>m x. if m = 1 then x else 0) ms xs"
proof (induction ms xs rule: list_induct2)
  case Nil
  then show ?case by simp
next
  case (Cons m ms x xs)
  show ?case
  proof (cases "m = 1")
    case True
    with Cons.IH show ?thesis by simp
  next
    case False
    with Cons.IH show ?thesis
      by (cases "map snd (filter (\<lambda>(m, x). m = 1) (zip ms xs))") simp_all
  qed
qed

lemma length_select:
  "length ms = length xs \<Longrightarrow>
   length (filter (\<lambda>(m, x). m = 1) (zip ms xs)) = count_selected ms"
  by (induction ms xs rule: list_induct2) (simp_all add: count_selected_def)

lemma select_map:
  "map f (map snd (filter (\<lambda>(m, x). m = 1) (zip ms xs)))
     = map snd (filter (\<lambda>(m, x). m = 1) (zip ms (map f xs)))"
proof (induction ms arbitrary: xs)
  case Nil
  then show ?case by simp
next
  case (Cons m ms)
  then show ?case by (cases xs) simp_all
qed

lemma mask_assign_select:
  assumes "length ms = length xs"
  shows "mask_assign ms (map snd (filter (\<lambda>(m, x). m = 1) (zip ms xs)))
           = Inr (map2 (\<lambda>m x. if m = 1 then x else 0) ms xs)"
  using assms by (simp add: mask_assign_def length_select scatter_select)

lemma scatter_places_voxels:
  assumes data_shape: "shape data_nib = [Nx, Ny, Nz, Nt]"
    and mask_shape: "shape mask_nib = [Nx, Ny, Nz]"
    and masked: "masking C data_nib mask_nib = Inr M"
    and i: "i < Nx" and j: "j < Ny" and k: "k < Nz" and t: "t < Nt"
  shows "\<exists>c x_single x_vol.
           col (data M) t = Inr c
         \<and> mask_assign (maskvec M) c = Inr x_single
         \<and> reshape_F (vec x_single) (vol_shape M) = Inr x_vol
         \<and> item x_vol [i, j, k]
             = (if item mask_nib [i, j, k] = 1 then item data_nib [i, j, k, t] else 0)"
proof -
  let ?V = "Nx * Ny * Nz"
  let ?s3 = "[Nx, Ny, Nz]"
  let ?s4 = "[Nx, Ny, Nz, Nt]"
  let ?r = "F_index ?s3 [i, j, k]"
  have v3: "valid_index ?s3 [i, j, k]" and v4: "valid_index ?s4 [i, j, k, t]"
    using i j k t by (simp_all add: valid_index_def)
  from v3 have r: "?r < ?V" using F_index_less [OF v3] by simp
  from masked data_shape obtain data_nib_V mv where
    dV: "reshape_F data_nib [?V, Nt] = Inr data_nib_V"
    and mv: "reshape_F mask_nib [?V] = Inr mv"
    and sel: "select_rows (elems mv) (as_matrix data_nib_V) = Inr (data M)"
    and M: "maskvec M = elems mv" "vol_shape M = ?s3"
    by (auto simp: masking_def ebind_def split: sum.splits)
  have len_mv: "length (elems mv) = ?V"
    using mv by (auto simp: reshape_F_def split: if_splits)
  have shV: "shape data_nib_V = [?V, Nt]" using dV by (rule shape_reshape_F)
  define all_rows where "all_rows = rows (as_matrix data_nib_V)"
  have all_rows: "all_rows = map (\<lambda>r. map (\<lambda>c. item data_nib_V [r, c]) [0..<Nt]) [0..<?V]"
    by (simp add: all_rows_def as_matrix_def shV Let_def)
  define full where "full = map (\<lambda>r. item data_nib_V [r, t]) [0..<?V]"
  have full: "map (\<lambda>row. row ! t) all_rows = full"
    using t by (simp add: all_rows full_def)
  have "select_rows (elems mv) (as_matrix data_nib_V)
          = Inr \<lparr>nrows = length (filter (\<lambda>(m, x). m = 1) (zip (elems mv) all_rows)),
                 ncols = Nt,
                 rows = map snd (filter (\<lambda>(m, x). m = 1) (zip (elems mv) all_rows))\<rparr>"
    by (simp add: select_rows_def select_by_mask_def ebind_def all_rows_def [symmetric]
          all_rows len_mv)
       (simp add: as_matrix_def shV Let_def)
  with sel have "data M
          = \<lparr>nrows = length (filter (\<lambda>(m, x). m = 1) (zip (elems mv) all_rows)),
             ncols = Nt,
             rows = map snd (filter (\<lambda>(m, x). m = 1) (zip (elems mv) all_rows))\<rparr>"
    by (simp only: sum.inject)
  then have dM: "rows (data M) = map snd (filter (\<lambda>(m, x). m = 1) (zip (elems mv) all_rows))"
    and nc: "ncols (data M) = Nt"
    by simp_all
  define c where "c = map snd (filter (\<lambda>(m, x). m = 1) (zip (elems mv) full))"
  have "map (\<lambda>row. row ! t) (rows (data M)) = c"
    unfolding dM select_map full c_def by (rule refl)
  then have col: "col (data M) t = Inr c"
    using t by (simp add: col_def nc)
  define x_single where "x_single = map2 (\<lambda>m x. if m = 1 then x else 0) (elems mv) full"
  have len_full: "length full = ?V" by (simp add: full_def)
  have asg: "mask_assign (maskvec M) c = Inr x_single"
    unfolding M c_def x_single_def
    by (rule mask_assign_select) (simp add: len_mv len_full)
  have len_x: "length x_single = ?V" by (simp add: x_single_def len_mv len_full)
  then obtain x_vol where xv: "reshape_F (vec x_single) ?s3 = Inr x_vol"
    by (simp add: reshape_F_def vec_def)
  have "item x_vol [i, j, k] = ravel_F (vec x_single) ! ?r"
    using xv v3 by (rule item_reshape_F)
  also have "\<dots> = x_single ! ?r" by (simp only: ravel_F_vec)
  also have "\<dots> = (if elems mv ! ?r = 1 then full ! ?r else 0)"
    using r by (simp add: x_single_def len_mv len_full)
  finally have 1: "item x_vol [i, j, k] = (if elems mv ! ?r = 1 then full ! ?r else 0)" .
  have "elems mv ! ?r = ravel_F mask_nib ! ?r"
    using mv by (simp only: elems_reshape_flat)
  also have "\<dots> = item mask_nib (F_unravel ?s3 ?r)"
    using r by (simp add: ravel_F_nth mask_shape)
  also have "\<dots> = item mask_nib [i, j, k]"
    by (simp only: F_unravel_index [OF v3])
  finally have 2: "elems mv ! ?r = item mask_nib [i, j, k]" .
  have vrt: "valid_index [?V, Nt] [?r, t]"
    using r t by (simp add: valid_index_def)
  have idx: "F_index [?V, Nt] [?r, t] = F_index ?s4 [i, j, k, t]"
    by (simp add: algebra_simps)
  have lt4: "F_index ?s4 [i, j, k, t] < prod_list (shape data_nib)"
    using F_index_less [OF v4] by (simp add: data_shape)
  have "full ! ?r = item data_nib_V [?r, t]"
    using r by (simp add: full_def)
  also have "\<dots> = ravel_F data_nib ! F_index [?V, Nt] [?r, t]"
    using dV vrt by (rule item_reshape_F)
  also have "\<dots> = ravel_F data_nib ! F_index ?s4 [i, j, k, t]"
    by (simp only: idx)
  also have "\<dots> = item data_nib (F_unravel ?s4 (F_index ?s4 [i, j, k, t]))"
    using lt4 by (simp only: ravel_F_nth data_shape)
  also have "\<dots> = item data_nib [i, j, k, t]"
    by (simp only: F_unravel_index [OF v4])
  finally have 3: "full ! ?r = item data_nib [i, j, k, t]" .
  from col asg xv 1 2 3 show ?thesis by (simp add: M)
qed

lemma reshape_F_ravel_F:
  assumes "wf_array a"
  shows "reshape_F (vec (ravel_F a)) (shape a) = Inr a"
proof -
  let ?s = "shape a"
  have "map (\<lambda>c. ravel_F (vec (ravel_F a)) ! F_index ?s (C_unravel ?s c)) [0..<prod_list ?s]
          = map (\<lambda>c. elems a ! c) [0..<prod_list ?s]"
  proof (rule map_cong [OF refl])
    fix c assume "c \<in> set [0..<prod_list ?s]"
    then have c: "c < prod_list ?s" by simp
    then have v: "valid_index ?s (C_unravel ?s c)" by (rule C_unravel_valid)
    then have lt: "F_index ?s (C_unravel ?s c) < prod_list ?s" by (rule F_index_less)
    have "ravel_F (vec (ravel_F a)) ! F_index ?s (C_unravel ?s c)
            = ravel_F a ! F_index ?s (C_unravel ?s c)"
      by (simp only: ravel_F_vec)
    also have "\<dots> = item a (F_unravel ?s (F_index ?s (C_unravel ?s c)))"
      using lt by (rule ravel_F_nth)
    also have "\<dots> = item a (C_unravel ?s c)"
      by (simp only: F_unravel_index [OF v])
    also have "\<dots> = elems a ! c"
      using c by (simp add: item_def C_index_unravel)
    finally show "ravel_F (vec (ravel_F a)) ! F_index ?s (C_unravel ?s c) = elems a ! c" .
  qed
  also have "\<dots> = map (\<lambda>c. elems a ! c) [0..<length (elems a)]"
    using assms by (simp add: wf_array_def)
  also have "\<dots> = elems a"
    by (rule map_nth)
  finally show ?thesis
    by (simp add: reshape_F_def vec_def length_ravel_F)
qed

subsection \<open>Column-major positions, and the volumes handed to the collaborators\<close>

lemma F_index_3: "F_index [Nx, Ny, Nz] [i, j, k] = voxel_pos Nx Ny i j k"
  by (simp add: voxel_pos_def)

lemma valid_index_3: "i < Nx \<Longrightarrow> j < Ny \<Longrightarrow> k < Nz \<Longrightarrow> valid_index [Nx, Ny, Nz] [i, j, k]"
  by (simp add: valid_index_def)

lemma voxel_pos_less:
  assumes "i < Nx" "j < Ny" "k < Nz"
  shows "voxel_pos Nx Ny i j k < Nx * Ny * Nz"
  using F_index_less [OF valid_index_3 [OF assms]] by (simp add: voxel_pos_def)

lemma ravel_F_3:
  assumes "shape a = [p, q, r]" "i < p" "j < q" "k < r"
  shows "ravel_F a ! voxel_pos p q i j k = item a [i, j, k]"
proof -
  have v: "valid_index [p, q, r] [i, j, k]" using assms(2-4) by (rule valid_index_3)
  have "voxel_pos p q i j k < prod_list (shape a)"
    using voxel_pos_less [OF assms(2-4)] by (simp add: assms(1))
  then have "ravel_F a ! voxel_pos p q i j k = item a (F_unravel (shape a) (voxel_pos p q i j k))"
    by (rule ravel_F_nth)
  also have "\<dots> = item a (F_unravel [p, q, r] (F_index [p, q, r] [i, j, k]))"
    by (simp only: assms(1) F_index_3)
  also have "\<dots> = item a [i, j, k]"
    by (simp only: F_unravel_index [OF v])
  finally show ?thesis .
qed

lemma reshape_F_flat:
  "reshape_F a [prod_list (shape a)]
     = Inr \<lparr>shape = [prod_list (shape a)], elems = ravel_F a\<rparr>"
proof -
  obtain b where b: "reshape_F a [prod_list (shape a)] = Inr b"
    by (simp add: reshape_F_def)
  then have "elems b = ravel_F a" by (rule elems_reshape_flat)
  moreover from b have "shape b = [prod_list (shape a)]" by (rule shape_reshape_F)
  ultimately have "b = \<lparr>shape = [prod_list (shape a)], elems = ravel_F a\<rparr>" by simp
  with b show ?thesis by simp
qed

lemma reshape_vec_3:
  assumes "length x = Nx * Ny * Nz"
  shows "\<exists>v. reshape_F (vec x) [Nx, Ny, Nz] = Inr v
            \<and> shape v = [Nx, Ny, Nz] \<and> wf_array v
            \<and> (\<forall>i<Nx. \<forall>j<Ny. \<forall>k<Nz. item v [i, j, k] = x ! voxel_pos Nx Ny i j k)
            \<and> reshape_F v [Nx * Ny * Nz] = Inr (vec x)"
proof -
  from reshape_F_roundtrip [OF assms] obtain v where
    v: "reshape_F (vec x) [Nx, Ny, Nz] = Inr v" and w: "reshape_F v [Nx * Ny * Nz] = Inr (vec x)"
    by blast
  from v have sh: "shape v = [Nx, Ny, Nz]" by (rule shape_reshape_F)
  from v have wf: "wf_array v"
    by (auto simp: reshape_F_def wf_array_def split: if_splits)
  have "item v [i, j, k] = x ! voxel_pos Nx Ny i j k" if "i < Nx" "j < Ny" "k < Nz" for i j k
  proof -
    have "item v [i, j, k] = ravel_F (vec x) ! F_index [Nx, Ny, Nz] [i, j, k]"
      using v valid_index_3 [OF that] by (rule item_reshape_F)
    then show ?thesis by (simp only: ravel_F_vec F_index_3)
  qed
  with v w sh wf show ?thesis by blast
qed

lemma length_scatter: "length (scatter ms vals) = length ms"
  by (induction ms vals rule: scatter.induct) simp_all

lemma scatter_nth:
  "length vals = count_selected ms \<Longrightarrow> p < length ms \<Longrightarrow>
   scatter ms vals ! p = (if ms ! p = 1 then vals ! rank_in_mask ms p else 0)"
proof (induction ms vals arbitrary: p rule: scatter.induct)
  case (1 vs)
  then show ?case by simp
next
  case (2 m ms)
  then show ?case
    by (cases p) (auto simp: rank_in_mask_def count_selected_def split: if_splits)
next
  case (3 m ms v vs)
  then show ?case
    by (cases p) (auto simp: rank_in_mask_def count_selected_def split: if_splits)
qed

lemma rank_less:
  assumes "p < length ms" "ms ! p = 1"
  shows "rank_in_mask ms p < count_selected ms"
proof -
  from assms(1) have "ms = take p ms @ ms ! p # drop (Suc p) ms"
    by (rule id_take_nth_drop)
  then have "count_selected ms = count_selected (take p ms @ ms ! p # drop (Suc p) ms)"
    by simp
  also have "\<dots> = rank_in_mask ms p + 1 + count_selected (drop (Suc p) ms)"
    using assms(2) by (simp add: count_selected_def rank_in_mask_def)
  finally show ?thesis by simp
qed

lemma scatter_volume:
  assumes len: "length ms = Nx * Ny * Nz" and c: "length c = count_selected ms"
  shows "\<exists>x_vol. ebind (mask_assign ms c) (\<lambda>x_single. reshape_F (vec x_single) [Nx, Ny, Nz])
                    = Inr x_vol
           \<and> shape x_vol = [Nx, Ny, Nz] \<and> wf_array x_vol
           \<and> (\<forall>i<Nx. \<forall>j<Ny. \<forall>k<Nz. item x_vol [i, j, k]
                = (if ms ! voxel_pos Nx Ny i j k = 1
                   then c ! rank_in_mask ms (voxel_pos Nx Ny i j k) else 0))"
proof -
  from c have asg: "mask_assign ms c = Inr (scatter ms c)"
    by (simp add: mask_assign_def)
  have "length (scatter ms c) = Nx * Ny * Nz" by (simp add: length_scatter len)
  from reshape_vec_3 [OF this] obtain v where
    v: "reshape_F (vec (scatter ms c)) [Nx, Ny, Nz] = Inr v"
    and sh: "shape v = [Nx, Ny, Nz]" and wf: "wf_array v"
    and it: "\<forall>i<Nx. \<forall>j<Ny. \<forall>k<Nz. item v [i, j, k] = scatter ms c ! voxel_pos Nx Ny i j k"
    by blast
  have "item v [i, j, k] = (if ms ! voxel_pos Nx Ny i j k = 1
                   then c ! rank_in_mask ms (voxel_pos Nx Ny i j k) else 0)"
    if "i < Nx" "j < Ny" "k < Nz" for i j k
  proof -
    from that have "voxel_pos Nx Ny i j k < length ms"
      by (simp add: len voxel_pos_less)
    with c have "scatter ms c ! voxel_pos Nx Ny i j k
        = (if ms ! voxel_pos Nx Ny i j k = 1
           then c ! rank_in_mask ms (voxel_pos Nx Ny i j k) else 0)"
      by (rule scatter_nth)
    with it that show ?thesis by simp
  qed
  with asg v sh wf show ?thesis by (simp add: ebind_def)
qed

lemma masking_facts:
  assumes "shape data_nib = [Nx, Ny, Nz, Nt]" and "masking C data_nib mask_nib = Inr M"
  shows "vol_shape M = [Nx, Ny, Nz]" and "n_t M = Nt"
    and "maskvec M = ravel_F mask_nib" and "length (maskvec M) = Nx * Ny * Nz"
    and "length (rows (data M)) = count_selected (maskvec M)"
    and "nrows (data M) = count_selected (maskvec M)"
    and "ncols (data M) = Nt"
proof -
  let ?V = "Nx * Ny * Nz"
  from assms obtain data_nib_V mv where
    dV: "reshape_F data_nib [?V, Nt] = Inr data_nib_V"
    and mv: "reshape_F mask_nib [?V] = Inr mv"
    and sel: "select_rows (elems mv) (as_matrix data_nib_V) = Inr (data M)"
    and M: "maskvec M = elems mv" "vol_shape M = [Nx, Ny, Nz]" "n_t M = Nt"
    by (auto simp: masking_def ebind_def split: sum.splits)
  show "vol_shape M = [Nx, Ny, Nz]" "n_t M = Nt" by (fact M)+
  show mr: "maskvec M = ravel_F mask_nib"
    using mv by (simp add: M elems_reshape_flat)
  show len: "length (maskvec M) = ?V"
    using mv by (auto simp: M reshape_F_def split: if_splits)
  have shV: "shape data_nib_V = [?V, Nt]" using dV by (rule shape_reshape_F)
  from sel obtain rs where
    rs: "select_by_mask (elems mv) (rows (as_matrix data_nib_V)) = Inr rs"
    and d: "data M = \<lparr>nrows = length rs, ncols = ncols (as_matrix data_nib_V), rows = rs\<rparr>"
    by (auto simp: select_rows_def ebind_def split: sum.splits)
  from rs have "length rs = count_selected (elems mv)"
    by (auto simp: select_by_mask_def length_select split: if_splits)
  with d show "length (rows (data M)) = count_selected (maskvec M)"
    and "nrows (data M) = count_selected (maskvec M)"
    by (simp_all add: M)
  from d show "ncols (data M) = Nt"
    by (simp add: as_matrix_def shV Let_def)
qed

lemma maskvec_F_order:
  assumes "shape data_nib = [Nx, Ny, Nz, Nt]" and "shape mask_nib = [Nx, Ny, Nz]"
    and "masking C data_nib mask_nib = Inr M"
    and "i < Nx" "j < Ny" "k < Nz"
  shows "maskvec M ! voxel_pos Nx Ny i j k = item mask_nib [i, j, k]"
  using ravel_F_3 [OF assms(2) assms(4-6)] masking_facts(3) [OF assms(1,3)] by simp

lemma data_rows_voxels:
  assumes data_shape: "shape data_nib = [Nx, Ny, Nz, Nt]"
    and mask_shape: "shape mask_nib = [Nx, Ny, Nz]"
    and masked: "masking C data_nib mask_nib = Inr M"
    and i: "i < Nx" and j: "j < Ny" and k: "k < Nz" and t: "t < Nt"
    and sel: "item mask_nib [i, j, k] = 1"
  shows "rows (data M) ! rank_in_mask (maskvec M) (voxel_pos Nx Ny i j k) ! t
           = item data_nib [i, j, k, t]"
proof -
  let ?p = "voxel_pos Nx Ny i j k"
  let ?ms = "maskvec M"
  note mf = masking_facts [OF data_shape masked]
  from scatter_places_voxels [OF data_shape mask_shape masked i j k t] sel
  obtain c x_single x_vol where
    c: "col (data M) t = Inr c" and x: "mask_assign ?ms c = Inr x_single"
    and v: "reshape_F (vec x_single) (vol_shape M) = Inr x_vol"
    and it: "item x_vol [i, j, k] = item data_nib [i, j, k, t]"
    by auto
  from c have cm: "c = map (\<lambda>r. r ! t) (rows (data M))"
    by (auto simp: col_def split: if_splits)
  then have lc: "length c = count_selected ?ms" by (simp add: mf(5))
  with x have xs: "x_single = scatter ?ms c" by (simp add: mask_assign_def)
  have p: "?p < length ?ms" using i j k by (simp add: mf(4) voxel_pos_less)
  have mp: "?ms ! ?p = 1"
    using maskvec_F_order [OF data_shape mask_shape masked i j k] sel by simp
  have "item x_vol [i, j, k] = ravel_F (vec x_single) ! F_index [Nx, Ny, Nz] [i, j, k]"
    using v valid_index_3 [OF i j k] unfolding mf(1) by (rule item_reshape_F)
  also have "\<dots> = scatter ?ms c ! ?p" by (simp only: ravel_F_vec F_index_3 xs)
  also have "\<dots> = c ! rank_in_mask ?ms ?p"
    using scatter_nth [OF lc p] mp by simp
  also have "\<dots> = rows (data M) ! rank_in_mask ?ms ?p ! t"
    using rank_less [OF p mp] by (simp add: cm mf(5))
  finally show ?thesis using it by simp
qed

lemma np_dot_rows:
  assumes "np_dot A W = Inr B"
  shows "length (rows B) = length (rows A)" and "ncols B = ncols W"
  using assms by (auto simp: np_dot_def split: if_splits)

lemma probe_depth_volume:
  assumes data_shape: "shape data_nib = [Nx, Ny, Nz, Nt]"
    and mask_shape: "shape mask_nib = [Nx, Ny, Nz]"
    and masked: "masking C data_nib mask_nib = Inr M"
    and dot: "np_dot (data M) W = Inr dataN" and c: "c < ncols dataN"
  shows "\<exists>x_vol. shape x_vol = [Nx, Ny, Nz] \<and> wf_array x_vol
           \<and> (\<forall>i<Nx. \<forall>j<Ny. \<forall>k<Nz. item x_vol [i, j, k]
                = (if item mask_nib [i, j, k] = 1
                   then rows dataN ! rank_in_mask (maskvec M) (voxel_pos Nx Ny i j k) ! c
                   else 0))
           \<and> probe_depth C' (vol_shape M) (maskvec M) dataN c
                = ebind (raised (est_indp_sp C' x_vol)) (\<lambda>lag. Inr (real_of_int lag + 1))"
proof -
  let ?ms = "maskvec M"
  note mf = masking_facts [OF data_shape masked]
  define cv where "cv = map (\<lambda>r. r ! c) (rows dataN)"
  have col: "col dataN c = Inr cv" using c by (simp add: col_def cv_def)
  have lr: "length (rows dataN) = count_selected ?ms"
    using np_dot_rows(1) [OF dot] by (simp add: mf(5))
  then have lcv: "length cv = count_selected ?ms" by (simp add: cv_def)
  from scatter_volume [OF mf(4) lcv] obtain x_vol where
    xv: "ebind (mask_assign ?ms cv) (\<lambda>x_single. reshape_F (vec x_single) [Nx, Ny, Nz])
           = Inr x_vol"
    and sh: "shape x_vol = [Nx, Ny, Nz]" and wf: "wf_array x_vol"
    and it: "\<forall>i<Nx. \<forall>j<Ny. \<forall>k<Nz. item x_vol [i, j, k]
                = (if ?ms ! voxel_pos Nx Ny i j k = 1
                   then cv ! rank_in_mask ?ms (voxel_pos Nx Ny i j k) else 0)"
    by blast
  have "item x_vol [i, j, k]
          = (if item mask_nib [i, j, k] = 1
             then rows dataN ! rank_in_mask ?ms (voxel_pos Nx Ny i j k) ! c else 0)"
    if ijk: "i < Nx" "j < Ny" "k < Nz" for i j k
  proof (cases "item mask_nib [i, j, k] = 1")
    case True
    then have mp: "?ms ! voxel_pos Nx Ny i j k = 1"
      using maskvec_F_order [OF data_shape mask_shape masked ijk] by simp
    have p: "voxel_pos Nx Ny i j k < length ?ms"
      using ijk by (simp add: mf(4) voxel_pos_less)
    from rank_less [OF p mp] have "rank_in_mask ?ms (voxel_pos Nx Ny i j k) < length (rows dataN)"
      by (simp add: lr)
    then have "cv ! rank_in_mask ?ms (voxel_pos Nx Ny i j k)
                 = rows dataN ! rank_in_mask ?ms (voxel_pos Nx Ny i j k) ! c"
      by (simp add: cv_def)
    with it ijk mp True show ?thesis by simp
  next
    case False
    then have "?ms ! voxel_pos Nx Ny i j k \<noteq> 1"
      using maskvec_F_order [OF data_shape mask_shape masked ijk] by simp
    with it ijk False show ?thesis by simp
  qed
  moreover have "probe_depth C' (vol_shape M) ?ms dataN c
                = ebind (raised (est_indp_sp C' x_vol)) (\<lambda>lag. Inr (real_of_int lag + 1))"
  proof -
    from xv obtain x_single where
      a: "mask_assign ?ms cv = Inr x_single"
      and r: "reshape_F (vec x_single) [Nx, Ny, Nz] = Inr x_vol"
      by (cases "mask_assign ?ms cv") (simp_all add: ebind_def)
    show ?thesis
      unfolding probe_depth_def col mf(1) by (simp add: ebind_def a r)
  qed
  ultimately show ?thesis using sh wf by blast
qed

lemma resample_column_volume:
  assumes data_shape: "shape data_nib = [Nx, Ny, Nz, Nt]"
    and mask_shape: "shape mask_nib = [Nx, Ny, Nz]"
    and masked: "masking C data_nib mask_nib = Inr M"
    and t: "t < Nt"
  shows "\<exists>x_vol. shape x_vol = [Nx, Ny, Nz] \<and> wf_array x_vol
           \<and> (\<forall>i<Nx. \<forall>j<Ny. \<forall>k<Nz. item x_vol [i, j, k]
                = (if item mask_nib [i, j, k] = 1 then item data_nib [i, j, k, t] else 0))
           \<and> resample_column C' M depth ms n_s t
                = ebind (raised (subsampling C' x_vol depth)) (\<lambda>dat0.
                  ebind (select_by_mask ms (ravel_F dat0)) (\<lambda>sel.
                    if length sel = n_s then Inr sel
                    else if length sel = 1 then Inr (replicate n_s (hd sel))
                    else Inl Assign_ValueError))"
proof -
  let ?mv = "maskvec M"
  note mf = masking_facts [OF data_shape masked]
  define cv where "cv = map (\<lambda>r. r ! t) (rows (data M))"
  have col: "col (data M) t = Inr cv" using t by (simp add: col_def cv_def mf(7))
  have lcv: "length cv = count_selected ?mv" by (simp add: cv_def mf(5))
  from scatter_volume [OF mf(4) lcv] obtain x_vol where
    xv: "ebind (mask_assign ?mv cv) (\<lambda>x_single. reshape_F (vec x_single) [Nx, Ny, Nz])
           = Inr x_vol"
    and sh: "shape x_vol = [Nx, Ny, Nz]" and wf: "wf_array x_vol"
    and it: "\<forall>i<Nx. \<forall>j<Ny. \<forall>k<Nz. item x_vol [i, j, k]
                = (if ?mv ! voxel_pos Nx Ny i j k = 1
                   then cv ! rank_in_mask ?mv (voxel_pos Nx Ny i j k) else 0)"
    by blast
  have "item x_vol [i, j, k]
          = (if item mask_nib [i, j, k] = 1 then item data_nib [i, j, k, t] else 0)"
    if ijk: "i < Nx" "j < Ny" "k < Nz" for i j k
  proof (cases "item mask_nib [i, j, k] = 1")
    case True
    then have mp: "?mv ! voxel_pos Nx Ny i j k = 1"
      using maskvec_F_order [OF data_shape mask_shape masked ijk] by simp
    have p: "voxel_pos Nx Ny i j k < length ?mv"
      using ijk by (simp add: mf(4) voxel_pos_less)
    from rank_less [OF p mp]
    have "rank_in_mask ?mv (voxel_pos Nx Ny i j k) < length (rows (data M))"
      by (simp add: mf(5))
    then have "cv ! rank_in_mask ?mv (voxel_pos Nx Ny i j k)
                 = rows (data M) ! rank_in_mask ?mv (voxel_pos Nx Ny i j k) ! t"
      by (simp add: cv_def)
    also have "\<dots> = item data_nib [i, j, k, t]"
      using data_shape mask_shape masked ijk t True by (rule data_rows_voxels)
    finally show ?thesis using it ijk mp True by simp
  next
    case False
    then have "?mv ! voxel_pos Nx Ny i j k \<noteq> 1"
      using maskvec_F_order [OF data_shape mask_shape masked ijk] by simp
    with it ijk False show ?thesis by simp
  qed
  moreover have "resample_column C' M depth ms n_s t
                = ebind (raised (subsampling C' x_vol depth)) (\<lambda>dat0.
                  ebind (select_by_mask ms (ravel_F dat0)) (\<lambda>sel.
                    if length sel = n_s then Inr sel
                    else if length sel = 1 then Inr (replicate n_s (hd sel))
                    else Inl Assign_ValueError))"
  proof -
    from xv obtain x_single where
      a: "mask_assign ?mv cv = Inr x_single"
      and r: "reshape_F (vec x_single) [Nx, Ny, Nz] = Inr x_vol"
      by (cases "mask_assign ?mv cv") (simp_all add: ebind_def)
    show ?thesis
      unfolding resample_column_def col mf(1)
      by (simp add: ebind_def a r reshape_F_flat split: sum.splits option.splits)
  qed
  ultimately show ?thesis using sh wf by blast
qed

lemma resample_flat:
  "resample C' M mask_ND depth
     = ebind (raised (subsampling C' mask_ND depth)) (\<lambda>mask_s.
         let n_s = py_int (sum_list (ravel_F mask_s))
         in if n_s < 0 then Inl NegativeDim_ValueError
            else ebind (collect (resample_column C' M depth (ravel_F mask_s) (nat n_s))
                          [0..<n_t M])
                   (\<lambda>cs. Inr (of_columns (nat n_s) cs)))"
  by (simp add: resample_def reshape_F_flat ebind_def Let_def split: sum.splits)

section \<open>The claims\<close>

subsection \<open>Linearization\<close>

text \<open>
  Claim C10. Every flattening of a volume and every reshaping of a vector to the
  volume shape in the pipeline is column-major: voxel \<open>(i, j, k)\<close> sits at position
  \<open>i + Nx * (j + Ny * k)\<close>, the first axis running fastest. For a volume series of
  shape \<open>(Nx, Ny, Nz, Nt)\<close> and a mask of shape \<open>(Nx, Ny, Nz)\<close> that pass the masking
  stage:
  \<^item> lines 56 to 58: the flattened mask holds the mask value of voxel \<open>(i, j, k)\<close> at
    that position, and the row of the masked matrix that belongs to a selected voxel
    holds the series of that voxel;
  \<^item> line 103 and the round trip: a vector of length \<open>Nx * Ny * Nz\<close> reshaped with
    order F has its entry of that position at voxel \<open>(i, j, k)\<close>, and flattening the
    result gives the vector back; the flattened mask reshaped to the volume shape is
    the mask;
  \<^item> lines 107 to 110: for every column of a product \<^verbatim>\<open>np.dot(data, W)\<close>, the volume
    handed to the lag estimator has at each selected voxel the entry of the row that
    belongs to the voxel, and zero elsewhere;
  \<^item> lines 130 to 135: the volume handed to the subsampling has at each selected voxel
    the value of the series at that voxel and time point, zero elsewhere, and what is
    selected from the subsampled volume is its column-major listing;
  \<^item> line 126: the subsampled mask is listed column-major as well.
\<close>

theorem linearization_consistent:
  assumes "shape data_nib = [Nx, Ny, Nz, Nt]"
    and "shape mask_nib = [Nx, Ny, Nz]"
    and "masking C data_nib mask_nib = Inr M"
  shows "length (maskvec M) = Nx * Ny * Nz
       \<and> (\<forall>i<Nx. \<forall>j<Ny. \<forall>k<Nz.
            maskvec M ! voxel_pos Nx Ny i j k = item mask_nib [i, j, k]
          \<and> (item mask_nib [i, j, k] = 1 \<longrightarrow>
               (\<forall>t<Nt. rows (data M) ! rank_in_mask (maskvec M) (voxel_pos Nx Ny i j k) ! t
                          = item data_nib [i, j, k, t])))
       \<and> (\<forall>x. length x = Nx * Ny * Nz \<longrightarrow>
            (\<exists>v. reshape_F (vec x) (vol_shape M) = Inr v
               \<and> (\<forall>i<Nx. \<forall>j<Ny. \<forall>k<Nz. item v [i, j, k] = x ! voxel_pos Nx Ny i j k)
               \<and> reshape_F v [Nx * Ny * Nz] = Inr (vec x)))
       \<and> (wf_array mask_nib \<longrightarrow>
            reshape_F (vec (maskvec M)) (vol_shape M) = Inr mask_nib)
       \<and> (\<forall>i < Nx. \<forall>j < Ny. \<forall>k < Nz. \<forall>t < Nt.
            \<exists>c x_single x_vol.
                col (data M) t = Inr c
              \<and> mask_assign (maskvec M) c = Inr x_single
              \<and> reshape_F (vec x_single) (vol_shape M) = Inr x_vol
              \<and> item x_vol [i, j, k]
                  = (if item mask_nib [i, j, k] = 1 then item data_nib [i, j, k, t] else 0))
       \<and> (\<forall>W dataN c. np_dot (data M) W = Inr dataN \<longrightarrow> c < ncols dataN \<longrightarrow>
            (\<exists>x_vol. shape x_vol = [Nx, Ny, Nz] \<and> wf_array x_vol
               \<and> (\<forall>i<Nx. \<forall>j<Ny. \<forall>k<Nz. item x_vol [i, j, k]
                    = (if item mask_nib [i, j, k] = 1
                       then rows dataN ! rank_in_mask (maskvec M) (voxel_pos Nx Ny i j k) ! c
                       else 0))
               \<and> probe_depth C (vol_shape M) (maskvec M) dataN c
                    = ebind (raised (est_indp_sp C x_vol))
                        (\<lambda>lag. Inr (real_of_int lag + 1))))
       \<and> (\<forall>t<Nt. \<forall>depth ms n_s.
            \<exists>x_vol. shape x_vol = [Nx, Ny, Nz] \<and> wf_array x_vol
               \<and> (\<forall>i<Nx. \<forall>j<Ny. \<forall>k<Nz. item x_vol [i, j, k]
                    = (if item mask_nib [i, j, k] = 1 then item data_nib [i, j, k, t] else 0))
               \<and> resample_column C M depth ms n_s t
                    = ebind (raised (subsampling C x_vol depth)) (\<lambda>dat0.
                      ebind (select_by_mask ms (ravel_F dat0)) (\<lambda>sel.
                        if length sel = n_s then Inr sel
                        else if length sel = 1 then Inr (replicate n_s (hd sel))
                        else Inl Assign_ValueError)))
       \<and> (\<forall>mask_ND depth.
            resample C M mask_ND depth
              = ebind (raised (subsampling C mask_ND depth)) (\<lambda>mask_s.
                  let n_s = py_int (sum_list (ravel_F mask_s))
                  in if n_s < 0 then Inl NegativeDim_ValueError
                     else ebind (collect (resample_column C M depth (ravel_F mask_s) (nat n_s))
                                   [0..<Nt])
                            (\<lambda>cs. Inr (of_columns (nat n_s) cs))))
       \<and> (\<forall>a p q r. shape a = [p, q, r] \<longrightarrow>
            length (ravel_F a) = p * q * r
          \<and> (\<forall>i<p. \<forall>j<q. \<forall>k<r. ravel_F a ! voxel_pos p q i j k = item a [i, j, k]))"
proof -
  note mf = masking_facts [OF assms(1,3)]
  have 1: "length (maskvec M) = Nx * Ny * Nz" by (fact mf(4))
  have 2: "\<forall>i<Nx. \<forall>j<Ny. \<forall>k<Nz.
            maskvec M ! voxel_pos Nx Ny i j k = item mask_nib [i, j, k]
          \<and> (item mask_nib [i, j, k] = 1 \<longrightarrow>
               (\<forall>t<Nt. rows (data M) ! rank_in_mask (maskvec M) (voxel_pos Nx Ny i j k) ! t
                          = item data_nib [i, j, k, t]))"
    using maskvec_F_order [OF assms] data_rows_voxels [OF assms] by blast
  have 3: "\<forall>x. length x = Nx * Ny * Nz \<longrightarrow>
            (\<exists>v. reshape_F (vec x) (vol_shape M) = Inr v
               \<and> (\<forall>i<Nx. \<forall>j<Ny. \<forall>k<Nz. item v [i, j, k] = x ! voxel_pos Nx Ny i j k)
               \<and> reshape_F v [Nx * Ny * Nz] = Inr (vec x))"
    unfolding mf(1) using reshape_vec_3 by blast
  have 4: "wf_array mask_nib \<longrightarrow>
            reshape_F (vec (maskvec M)) (vol_shape M) = Inr mask_nib"
    using reshape_F_ravel_F [of mask_nib] by (simp add: mf(1,3) assms(2))
  have 5: "\<forall>i < Nx. \<forall>j < Ny. \<forall>k < Nz. \<forall>t < Nt.
            \<exists>c x_single x_vol.
                col (data M) t = Inr c
              \<and> mask_assign (maskvec M) c = Inr x_single
              \<and> reshape_F (vec x_single) (vol_shape M) = Inr x_vol
              \<and> item x_vol [i, j, k]
                  = (if item mask_nib [i, j, k] = 1 then item data_nib [i, j, k, t] else 0)"
    using scatter_places_voxels [OF assms] by blast
  have 6: "\<forall>W dataN c. np_dot (data M) W = Inr dataN \<longrightarrow> c < ncols dataN \<longrightarrow>
            (\<exists>x_vol. shape x_vol = [Nx, Ny, Nz] \<and> wf_array x_vol
               \<and> (\<forall>i<Nx. \<forall>j<Ny. \<forall>k<Nz. item x_vol [i, j, k]
                    = (if item mask_nib [i, j, k] = 1
                       then rows dataN ! rank_in_mask (maskvec M) (voxel_pos Nx Ny i j k) ! c
                       else 0))
               \<and> probe_depth C (vol_shape M) (maskvec M) dataN c
                    = ebind (raised (est_indp_sp C x_vol))
                        (\<lambda>lag. Inr (real_of_int lag + 1)))"
    using probe_depth_volume [OF assms] by blast
  have 7: "\<forall>t<Nt. \<forall>depth ms n_s.
            \<exists>x_vol. shape x_vol = [Nx, Ny, Nz] \<and> wf_array x_vol
               \<and> (\<forall>i<Nx. \<forall>j<Ny. \<forall>k<Nz. item x_vol [i, j, k]
                    = (if item mask_nib [i, j, k] = 1 then item data_nib [i, j, k, t] else 0))
               \<and> resample_column C M depth ms n_s t
                    = ebind (raised (subsampling C x_vol depth)) (\<lambda>dat0.
                      ebind (select_by_mask ms (ravel_F dat0)) (\<lambda>sel.
                        if length sel = n_s then Inr sel
                        else if length sel = 1 then Inr (replicate n_s (hd sel))
                        else Inl Assign_ValueError))"
    using resample_column_volume [OF assms] by blast
  have 8: "\<forall>mask_ND depth.
            resample C M mask_ND depth
              = ebind (raised (subsampling C mask_ND depth)) (\<lambda>mask_s.
                  let n_s = py_int (sum_list (ravel_F mask_s))
                  in if n_s < 0 then Inl NegativeDim_ValueError
                     else ebind (collect (resample_column C M depth (ravel_F mask_s) (nat n_s))
                                   [0..<Nt])
                            (\<lambda>cs. Inr (of_columns (nat n_s) cs)))"
    using resample_flat [of C M] unfolding mf(2) by blast
  have 9: "\<forall>a p q r. shape a = [p, q, r] \<longrightarrow>
            length (ravel_F a) = p * q * r
          \<and> (\<forall>i<p. \<forall>j<q. \<forall>k<r. ravel_F a ! voxel_pos p q i j k = item a [i, j, k])"
    using ravel_F_3 by (simp add: length_ravel_F)
  from 1 2 3 4 5 6 7 8 9 show ?thesis by (intro conjI)
qed

theorem linearization_consistent_witness:
  "masking C_probe data_3312 mask_331 = Inr M_331
   \<and> maskvec M_331 ! 2 = item mask_331 [2, 0, 0] \<and> item mask_331 [2, 0, 0] = 1
   \<and> maskvec M_331 ! 5 = item mask_331 [2, 1, 0] \<and> item mask_331 [2, 1, 0] = 0
   \<and> rows (data M_331) ! 1 ! 1 = item data_3312 [2, 0, 0, 1]
   \<and> item data_3312 [2, 0, 0, 1] = 14
   \<and> (\<exists>v. reshape_F (vec [10, 20, 30, 40, 50, 60, 70, 80, 90]) [3, 3, 1] = Inr v
          \<and> item v [2, 0, 0] = 30 \<and> item v [0, 2, 0] = 70
          \<and> reshape_F v [9] = Inr (vec [10, 20, 30, 40, 50, 60, 70, 80, 90]))
   \<and> reshape_F (vec (maskvec M_331)) [3, 3, 1] = Inr mask_331
   \<and> (\<exists>x_vol. reshape_F (vec [2, 0, 14, 4, 10, 0, 6, 0, 0]) [3, 3, 1] = Inr x_vol
          \<and> item x_vol [2, 0, 0] = 14)
   \<and> probe_depth C_probe [3, 3, 1] (maskvec M_331) (data M_331) 1 = Inr 15
   \<and> resample_column C_probe M_331 2 [1, 1, 1, 0] 3 1 = Inr [2, 14, 6]
   \<and> resample C_probe M_331 mask_331 2
        = Inr \<lparr>nrows = 3, ncols = 2, rows = [[1, 2], [13, 14], [5, 6]]\<rparr>
   \<and> ravel_F mask_331 ! 2 = item mask_331 [2, 0, 0]"
proof -
  have m: "masking C_probe data_3312 mask_331 = Inr M_331"
    by code_simp
  have d: "shape data_3312 = [3, 3, 1, 2]" and k: "shape mask_331 = [3, 3, 1]"
    by (simp_all add: data_3312_def mask_331_def)
  note lc = linearization_consistent [OF d k m]
  have vs: "vol_shape M_331 = [3, 3, 1]" by (simp add: M_331_def)
  have p200: "voxel_pos 3 3 2 0 0 = 2" and p120: "voxel_pos 3 3 2 1 0 = 5"
    and p010: "voxel_pos 3 3 0 2 0 = 6"
    by (simp_all add: voxel_pos_def)
  have r2: "rank_in_mask (maskvec M_331) 2 = 1"
    by code_simp
  have i200: "item mask_331 [2, 0, 0] = 1" and i120: "item mask_331 [2, 1, 0] = 0"
    by code_simp+
  have d2001: "item data_3312 [2, 0, 0, 1] = 14"
    by code_simp
  have a1: "maskvec M_331 ! 2 = item mask_331 [2, 0, 0]"
    using lc [THEN conjunct2, THEN conjunct1, rule_format, of 2 0 0, THEN conjunct1]
    by (simp add: p200)
  have a2: "maskvec M_331 ! 5 = item mask_331 [2, 1, 0]"
    using lc [THEN conjunct2, THEN conjunct1, rule_format, of 2 1 0, THEN conjunct1]
    by (simp add: voxel_pos_def)
  have a3: "rows (data M_331) ! 1 ! 1 = item data_3312 [2, 0, 0, 1]"
    using lc [THEN conjunct2, THEN conjunct1, rule_format, of 2 0 0, THEN conjunct2,
              rule_format, of 1] p200 r2 i200
    by simp
  let ?x = "[10, 20, 30, 40, 50, 60, 70, 80, 90] :: real list"
  have b: "\<exists>v. reshape_F (vec ?x) [3, 3, 1] = Inr v
          \<and> item v [2, 0, 0] = 30 \<and> item v [0, 2, 0] = 70
          \<and> reshape_F v [9] = Inr (vec ?x)"
  proof -
    from lc [THEN conjunct2, THEN conjunct2, THEN conjunct1, rule_format, of ?x]
    obtain v where v: "reshape_F (vec ?x) [3, 3, 1] = Inr v"
      and it: "\<forall>i<3. \<forall>j<3. \<forall>k<1. item v [i, j, k] = ?x ! voxel_pos 3 3 i j k"
      and w: "reshape_F v [9] = Inr (vec ?x)"
      by (auto simp: vs)
    from it [rule_format, of 2 0 0] have "item v [2, 0, 0] = 30" by (simp add: p200)
    moreover from it [rule_format, of 0 2 0] have "item v [0, 2, 0] = 70" by (simp add: p010)
    ultimately show ?thesis using v w by blast
  qed
  have c: "reshape_F (vec (maskvec M_331)) [3, 3, 1] = Inr mask_331"
    using lc [THEN conjunct2, THEN conjunct2, THEN conjunct2, THEN conjunct1]
    by (simp add: vs wf_array_def mask_331_def)
  have e: "\<exists>x_vol. reshape_F (vec [2, 0, 14, 4, 10, 0, 6, 0, 0]) [3, 3, 1] = Inr x_vol
          \<and> item x_vol [2, 0, 0] = 14"
  proof -
    have col: "col (data M_331) 1 = Inr [2, 14, 4, 10, 6]" by code_simp
    have asg: "mask_assign (maskvec M_331) [2, 14, 4, 10, 6] = Inr [2, 0, 14, 4, 10, 0, 6, 0, 0]"
      by code_simp
    have "\<exists>c x_single x_vol.
                col (data M_331) 1 = Inr c
              \<and> mask_assign (maskvec M_331) c = Inr x_single
              \<and> reshape_F (vec x_single) (vol_shape M_331) = Inr x_vol
              \<and> item x_vol [2, 0, 0]
                  = (if item mask_331 [2, 0, 0] = 1 then item data_3312 [2, 0, 0, 1] else 0)"
      by (rule lc [THEN conjunct2, THEN conjunct2, THEN conjunct2, THEN conjunct2,
                   THEN conjunct1, rule_format]) simp_all
    then obtain c x_single x_vol where
      c: "col (data M_331) 1 = Inr c"
      and x: "mask_assign (maskvec M_331) c = Inr x_single"
      and v: "reshape_F (vec x_single) (vol_shape M_331) = Inr x_vol"
      and it: "item x_vol [2, 0, 0]
                  = (if item mask_331 [2, 0, 0] = 1 then item data_3312 [2, 0, 0, 1] else 0)"
      by blast
    from c col have "c = [2, 14, 4, 10, 6]" by simp
    with x asg have "x_single = [2, 0, 14, 4, 10, 0, 6, 0, 0]" by simp
    with v vs have "reshape_F (vec [2, 0, 14, 4, 10, 0, 6, 0, 0]) [3, 3, 1] = Inr x_vol"
      by simp
    moreover from it i200 d2001 have "item x_vol [2, 0, 0] = 14" by simp
    ultimately show ?thesis by blast
  qed
  have f: "probe_depth C_probe [3, 3, 1] (maskvec M_331) (data M_331) 1 = Inr 15"
  proof -
    have dot: "np_dot (data M_331) (identity 2) = Inr (data M_331)" by code_simp
    have nc: "(1::nat) < ncols (data M_331)" by (simp add: M_331_def)
    from lc [THEN conjunct2, THEN conjunct2, THEN conjunct2, THEN conjunct2, THEN conjunct2,
             THEN conjunct1, rule_format, OF dot nc]
    obtain x_vol where
      it: "\<forall>i<3. \<forall>j<3. \<forall>k<1. item x_vol [i, j, k]
             = (if item mask_331 [i, j, k] = 1
                then rows (data M_331) ! rank_in_mask (maskvec M_331) (voxel_pos 3 3 i j k) ! 1
                else 0)"
      and pd: "probe_depth C_probe (vol_shape M_331) (maskvec M_331) (data M_331) 1
                 = ebind (raised (est_indp_sp C_probe x_vol)) (\<lambda>lag. Inr (real_of_int lag + 1))"
      by blast
    from it [rule_format, of 2 0 0] p200 r2 i200 a3 d2001 have "item x_vol [2, 0, 0] = 14"
      by simp
    then have "est_indp_sp C_probe x_vol = Some 14"
      by (simp add: C_probe_def)
    with pd show ?thesis by (simp add: vs raised_def ebind_def)
  qed
  have g: "resample_column C_probe M_331 2 [1, 1, 1, 0] 3 1 = Inr [2, 14, 6]"
  proof -
    from lc [THEN conjunct2, THEN conjunct2, THEN conjunct2, THEN conjunct2, THEN conjunct2,
             THEN conjunct2, THEN conjunct1, rule_format, of 1 2 "[1, 1, 1, 0]" 3]
    obtain x_vol where sh: "shape x_vol = [3, 3, 1]"
      and it: "\<forall>i<3. \<forall>j<3. \<forall>k<1. item x_vol [i, j, k]
             = (if item mask_331 [i, j, k] = 1 then item data_3312 [i, j, k, 1] else 0)"
      and rc: "resample_column C_probe M_331 2 [1, 1, 1, 0] 3 1
                = ebind (raised (subsampling C_probe x_vol 2)) (\<lambda>dat0.
                  ebind (select_by_mask [1, 1, 1, 0] (ravel_F dat0)) (\<lambda>sel.
                    if length sel = 3 then Inr sel
                    else if length sel = 1 then Inr (replicate 3 (hd sel))
                    else Inl Assign_ValueError))"
      by auto
    have grid: "map (\<lambda>c. map (\<lambda>i. i * nat 2) (C_unravel [2, 2, 1] c)) [0..<4]
                  = [[0, 0, 0], [0, 2, 0], [2, 0, 0], [2, 2, 0]]"
      by code_simp
    have vals: "map (\<lambda>idx. if item mask_331 idx = 1 then item data_3312 (idx @ [1]) else 0)
                  [[0, 0, 0], [0, 2, 0], [2, 0, 0], [2, 2, 0]] = [2, 6, 14, 0]"
      by code_simp
    have "map (item x_vol) [[0, 0, 0], [0, 2, 0], [2, 0, 0], [2, 2, 0]]
            = map (\<lambda>idx. if item mask_331 idx = 1 then item data_3312 (idx @ [1]) else 0)
                  [[0, 0, 0], [0, 2, 0], [2, 0, 0], [2, 2, 0]]"
      using it [rule_format, of 0 0 0] it [rule_format, of 0 2 0]
        it [rule_format, of 2 0 0] it [rule_format, of 2 2 0]
      by simp
    then have items: "map (item x_vol) [[0, 0, 0], [0, 2, 0], [2, 0, 0], [2, 2, 0]] = [2, 6, 14, 0]"
      by (simp only: vals)
    have "map (\<lambda>c. item x_vol (map (\<lambda>i. i * nat 2) (C_unravel [2, 2, 1] c))) [0..<4]
            = map (item x_vol) (map (\<lambda>c. map (\<lambda>i. i * nat 2) (C_unravel [2, 2, 1] c)) [0..<4])"
      by (simp only: map_map o_def)
    also have "\<dots> = [2, 6, 14, 0]" by (simp only: grid items)
    finally have el: "map (\<lambda>c. item x_vol (map (\<lambda>i. i * nat 2) (C_unravel [2, 2, 1] c))) [0..<4]
            = [2, 6, 14, 0]" .
    have s: "map (\<lambda>n. (n + nat 2 - 1) div nat 2) [3, 3, 1] = [2, 2, 1::nat]"
      by code_simp
    have "subsampling C_probe x_vol 2 = Some \<lparr>shape = [2, 2, 1], elems = [2, 6, 14, 0]\<rparr>"
      using sh s el by (simp add: C_probe_def C_test_def grid_subsample_def Let_def)
    moreover have "ebind (select_by_mask [1, 1, 1, 0]
                     (ravel_F \<lparr>shape = [2, 2, 1], elems = [2, 6, 14, 0]\<rparr>)) (\<lambda>sel.
                    if length sel = 3 then Inr sel
                    else if length sel = 1 then Inr (replicate 3 (hd sel))
                    else Inl Assign_ValueError) = Inr [2, 14, 6]"
      by code_simp
    ultimately show ?thesis using rc by (simp add: raised_def ebind_def)
  qed
  have h: "resample C_probe M_331 mask_331 2
        = Inr \<lparr>nrows = 3, ncols = 2, rows = [[1, 2], [13, 14], [5, 6]]\<rparr>"
  proof -
    have "ebind (raised (subsampling C_probe mask_331 2)) (\<lambda>mask_s.
            let n_s = py_int (sum_list (ravel_F mask_s))
            in if n_s < 0 then Inl NegativeDim_ValueError
               else ebind (collect (resample_column C_probe M_331 2 (ravel_F mask_s) (nat n_s))
                             [0..<2])
                      (\<lambda>cs. Inr (of_columns (nat n_s) cs)))
          = Inr \<lparr>nrows = 3, ncols = 2, rows = [[1, 2], [13, 14], [5, 6]]\<rparr>"
      by code_simp
    with lc [THEN conjunct2, THEN conjunct2, THEN conjunct2, THEN conjunct2, THEN conjunct2,
             THEN conjunct2, THEN conjunct2, THEN conjunct1, rule_format, of mask_331 2]
    show ?thesis by simp
  qed
  have i: "ravel_F mask_331 ! 2 = item mask_331 [2, 0, 0]"
    using lc [THEN conjunct2, THEN conjunct2, THEN conjunct2, THEN conjunct2, THEN conjunct2,
              THEN conjunct2, THEN conjunct2, THEN conjunct2, rule_format, OF k,
              THEN conjunct2, rule_format, of 2 0 0]
    by (simp add: p200)
  from m a1 i200 a2 i120 a3 d2001 b c e f g h i show ?thesis by (intro conjI)
qed

subsection \<open>Reordering of the spectrum\<close>

text \<open>
  Claim C7, as stated: for every spectrum the decomposition returns (non-negative
  entries, any ordering), the spectrum used downstream is non-increasing. The
  reordering of lines 69 and 144 is a reversal, \<^verbatim>\<open>EigenValues[::-1]\<close>, not a sort: a
  spectrum returned largest first comes out smallest first.
\<close>

theorem reorder_descending_counterexample:
  "icatb_svd C_desc X_13 3 = Some (identity 3, [3, 2, 1])
   \<and> list_all (\<lambda>x. 0 \<le> x) [3, 2, 1 :: real]
   \<and> decompose C_desc X_13 3 = Inr (identity 3, [1, 2, 3])
   \<and> \<not> non_increasing [1, 2, 3]"
  by (simp add: C_desc_def decompose_def raised_def ebind_def non_increasing_def)

text \<open>
  Claim C7, amended: the spectrum used downstream is the reversal of the spectrum the
  decomposition returned, after the initial decomposition and after the decomposition
  of the resampled data (which replaces the spectrum exactly when the depth is not 1);
  so it is non-increasing whenever the decomposition returns its spectrum in ascending
  order.
\<close>

theorem reorder_reverses:
  "(\<forall>V ev'. decompose C X Nt = Inr (V, ev') \<longrightarrow>
       (\<exists>ev. icatb_svd C X Nt = Some (V, ev) \<and> ev' = rev ev
            \<and> (sorted ev \<longrightarrow> non_increasing ev')))
   \<and> (\<forall>ev'. resampled_spectrum C M mask_ND depth ev0 = Inr ev' \<longrightarrow>
        (if depth = 1 then ev' = ev0
         else \<exists>dat V ev. icatb_svd C dat (n_t M) = Some (V, ev) \<and> ev' = rev ev
                \<and> (sorted ev \<longrightarrow> non_increasing ev')))"
proof (intro conjI allI impI)
  fix V ev'
  assume "decompose C X Nt = Inr (V, ev')"
  then show "\<exists>ev. icatb_svd C X Nt = Some (V, ev) \<and> ev' = rev ev
                \<and> (sorted ev \<longrightarrow> non_increasing ev')"
    by (auto simp: decompose_def raised_def ebind_def non_increasing_def
             split: option.splits)
next
  fix ev'
  assume r: "resampled_spectrum C M mask_ND depth ev0 = Inr ev'"
  show "if depth = 1 then ev' = ev0
        else \<exists>dat V ev. icatb_svd C dat (n_t M) = Some (V, ev) \<and> ev' = rev ev
               \<and> (sorted ev \<longrightarrow> non_increasing ev')"
  proof (cases "depth = 1")
    case True
    with r show ?thesis by (simp add: resampled_spectrum_def)
  next
    case False
    with r obtain dat V where "decompose C dat (n_t M) = Inr (V, ev')"
      by (auto simp: resampled_spectrum_def ebind_def split: sum.splits)
    then have "\<exists>ev. icatb_svd C dat (n_t M) = Some (V, ev) \<and> ev' = rev ev
                 \<and> (sorted ev \<longrightarrow> non_increasing ev')"
      by (auto simp: decompose_def raised_def ebind_def non_increasing_def
               split: option.splits)
    with False show ?thesis by auto
  qed
qed

theorem reorder_reverses_witness:
  "decompose C_test X_13 3 = Inr (identity 3, [3, 2, 1])
   \<and> non_increasing [3, 2, 1]
   \<and> resampled_spectrum C_test M_211 mask_211 2 [7, 7] = Inr [2, 1]
   \<and> non_increasing [2, 1]
   \<and> resampled_spectrum C_test M_211 mask_211 1 [7, 7] = Inr [7, 7]"
proof -
  have d: "decompose C_test X_13 3 = Inr (identity 3, [3, 2, 1])"
    by code_simp
  have r2: "resampled_spectrum C_test M_211 mask_211 2 [7, 7] = Inr [2, 1]"
    by code_simp
  have r1: "resampled_spectrum C_test M_211 mask_211 1 [7, 7] = Inr [7, 7]"
    by code_simp
  note rr = reorder_reverses [of C_test X_13 3 M_211 mask_211]
  have "non_increasing [3, 2, 1]"
  proof -
    from rr [of 2 "[7, 7]", THEN conjunct1, rule_format, OF d]
    obtain ev :: "real list" where e: "[3, 2, 1] = rev ev"
      and s: "sorted ev \<longrightarrow> non_increasing [3, 2, 1]"
      by blast
    from e have "rev ev = [3, 2, 1]" by simp
    then have "ev = [1, 2, 3]" by (simp add: rev_swap)
    with s show ?thesis by simp
  qed
  moreover have "non_increasing [2, 1]"
  proof -
    from rr [of 2 "[7, 7]", THEN conjunct2, rule_format, OF r2]
    obtain ev :: "real list" where e: "[2, 1] = rev ev"
      and s: "sorted ev \<longrightarrow> non_increasing [2, 1]"
      by auto
    from e have "rev ev = [2, 1]" by simp
    then have "ev = [1, 2]" by (simp add: rev_swap)
    with s show ?thesis by simp
  qed
  ultimately show ?thesis using d r1 r2 by simp
qed

end
